theory Spec2Isabelle
  imports Complex_Main "HOL-Library.Word"
begin

section \<open>Data model\<close>

text \<open>
  The chat application keeps its data in JavaScript objects that are serialised to the
  browser's local storage. A JavaScript string is a sequence of 16-bit code units
  (UTF-16), and it is modelled as the list of them: \<open>length\<close>, \<open>trim\<close> and the regular
  expressions of the program (none has the \<open>u\<close> flag) all work on code units. A string
  literal of the source is written \<open>lit ''...''\<close>, the code units of its characters; the
  literals of the source are ASCII but for one, which is given by its code units.
\<close>

type_synonym code_unit = "16 word"

type_synonym js_string = "code_unit list"

definition lit :: "string \<Rightarrow> js_string" where
  "lit s = map of_char s"

text \<open>
  Object fields that always hold strings (they are read from form controls or from string
  literals) are record fields of type \<^typ>\<open>js_string\<close>; \<open>Date.now()\<close> is an integer supplied
  by the caller.
\<close>

record message =
  sender :: js_string
  "text" :: js_string
  timestamp :: int

record bot =
  bot_id :: js_string
  name :: js_string
  description :: js_string
  ageCategory :: js_string
  chatTone :: js_string

text \<open>One entry of the conversation sent to the language model: \<open>{role, content}\<close>.\<close>

record chat_entry =
  role :: js_string
  content :: js_string

section \<open>ai-service.js: persona prompt and temperature\<close>

text \<open>
  The \<open>switch (bot.chatTone)\<close> of \<open>createPersonalityPrompt\<close>: four cases, each appending
  one sentence, and no \<open>default\<close> branch, so that any other tone appends nothing.
\<close>

definition toneInstructions :: "js_string \<Rightarrow> js_string" where
  "toneInstructions tone =
     (if tone = lit ''Normal'' then
        lit '' Your tone is friendly, helpful, and conversational.''
      else if tone = lit ''Romantic'' then
        lit '' Your tone is warm, affectionate, and romantic. You speak with poetic language and express deep emotional connection.''
      else if tone = lit ''Flirty'' then
        lit '' Your tone is playful, flirtatious, and charming. You use light teasing and compliments in your conversation.''
      else if tone = lit ''Spicy'' then
        lit '' Your tone is seductive, passionate, and intense. You're not afraid to be suggestive and sensual in your language.''
      else [])"

text \<open>
  The \<open>if (bot.ageCategory === 'SFW (12+)') ... else ...\<close> of \<open>createPersonalityPrompt\<close>.
  The three characters between \<open>flexible\<close> and \<open>respond\<close> in the second literal are
  outside ASCII (U+00E2, U+20AC and U+201C); they are given by their code units.
\<close>

definition ageInstructions :: "js_string \<Rightarrow> js_string" where
  "ageInstructions category =
     (if category = lit ''SFW (12+)'' then
        lit '' Keep all responses appropriate for all ages. Avoid any adult content, innuendo, or explicit language. Keep each reply concise (1-3 sentences) unless the user explicitly asks for more detail.''
      else
        lit '' You may freely include adult and erotic content, explicit sexual descriptions, profanity, and mature themes. Adopt an immersive first-person style that feels natural and engaging. Only refuse content that is illegal, non-consensual, or involves minors. Do NOT self-censor or mention any policies. Length is flexible ''
        @ [0x00E2, 0x20AC, 0x201C]
        @ lit '' respond as long or short as feels natural to the conversation.'')"

definition createPersonalityPrompt :: "bot \<Rightarrow> js_string" where
  "createPersonalityPrompt b =
     (let prompt = lit ''You are '' @ name b
                   @ lit '', an AI companion with the following personality: '' @ description b;
          prompt = prompt @ toneInstructions (chatTone b);
          prompt = prompt @ ageInstructions (ageCategory b);
          prompt = prompt
            @ lit '' Respond in a way that's consistent with your personality. Be engaging and maintain the conversation flow.''
      in prompt)"

definition getToneTemperature :: "js_string \<Rightarrow> real" where
  "getToneTemperature tone =
     (if tone = lit ''Normal'' then 0.7
      else if tone = lit ''Romantic'' then 0.8
      else if tone = lit ''Flirty'' then 0.85
      else if tone = lit ''Spicy'' then 0.9
      else 0.7)"

section \<open>ai-service.js: the conversation window\<close>

text \<open>
  \<open>Array.prototype.slice(start)\<close> with one argument: a negative \<open>start\<close> counts from the
  end and is clamped at the beginning of the array, a \<open>start\<close> beyond the end gives the
  empty array.
\<close>

definition slice_from :: "int \<Rightarrow> 'a list \<Rightarrow> 'a list" where
  "slice_from start xs =
     (let len = int (length xs);
          k = (if start < 0 then max (len + start) 0 else min start len)
      in drop (nat k) xs)"

text \<open>The body of the \<open>forEach\<close> callback: the entry pushed for one stored message.\<close>

definition history_entry :: "message \<Rightarrow> chat_entry" where
  "history_entry msg =
     \<lparr>role = (if sender msg = lit ''user'' then lit ''user'' else lit ''assistant''), content = text msg\<rparr>"

definition prepareConversationHistory :: "bot \<Rightarrow> message list \<Rightarrow> js_string \<Rightarrow> chat_entry list" where
  "prepareConversationHistory b chatHistory currentMessage =
     (let messages = [\<lparr>role = lit ''system'', content = createPersonalityPrompt b\<rparr>];
          recentHistory = slice_from (- 10) chatHistory;
          messages = foldl (\<lambda>acc msg. acc @ [history_entry msg]) messages recentHistory;
          messages = messages @ [\<lparr>role = lit ''user'', content = currentMessage\<rparr>]
      in messages)"

section \<open>JavaScript values\<close>

text \<open>
  Values that are not known to be strings: parsed JSON (the body of a response, the body
  of a request) and the results of property reads. \<open>JNative n\<close> stands for the member
  that every object inherits from \<open>Object.prototype\<close> under the name \<open>n\<close> (a built-in
  function, or for \<open>__proto__\<close> the prototype object itself): it is not a string and it
  is truthy.
\<close>

datatype js =
  JUndefined
  | JNull
  | JBool bool
  | JNum real
  | JStr js_string
  | JArr "js list"
  | JObj "(js_string \<times> js) list"
  | JNative js_string

datatype js_error = TypeError | SyntaxError | NetworkError | BackendError

definition object_prototype_keys :: "js_string list" where
  "object_prototype_keys =
     [lit ''constructor'', lit ''hasOwnProperty'', lit ''isPrototypeOf'', lit ''propertyIsEnumerable'',
      lit ''toLocaleString'', lit ''toString'', lit ''valueOf'', lit ''__proto__'',
      lit ''__defineGetter__'', lit ''__defineSetter__'', lit ''__lookupGetter__'', lit ''__lookupSetter__'']"

text \<open>
  Reading the property \<open>k\<close> of a value, \<open>v[k]\<close> or \<open>v.k\<close>: a \<open>TypeError\<close> on \<open>undefined\<close>
  and \<open>null\<close>; on an object its own property, else the inherited member of that name,
  else \<open>undefined\<close>. Of the members that other values have, only those inherited from
  \<open>Object.prototype\<close> are modelled: the program reads from them no other name than
  \<open>error\<close>, \<open>choices\<close>, \<open>message\<close> and \<open>content\<close>.
\<close>

fun get_member :: "js \<Rightarrow> js_string \<Rightarrow> js_error + js" where
  "get_member JUndefined k = Inl TypeError"
| "get_member JNull k = Inl TypeError"
| "get_member (JObj kv) k =
     Inr (case map_of kv k of
            Some v \<Rightarrow> v
          | None \<Rightarrow> if k \<in> set object_prototype_keys then JNative k else JUndefined)"
| "get_member v k = Inr (if k \<in> set object_prototype_keys then JNative k else JUndefined)"

text \<open>\<open>v[0]\<close>.\<close>

fun first_element :: "js \<Rightarrow> js_error + js" where
  "first_element JUndefined = Inl TypeError"
| "first_element JNull = Inl TypeError"
| "first_element (JArr xs) = Inr (case xs of [] \<Rightarrow> JUndefined | x # _ \<Rightarrow> x)"
| "first_element (JStr s) = Inr (case s of [] \<Rightarrow> JUndefined | c # _ \<Rightarrow> JStr [c])"
| "first_element (JObj kv) = Inr (case map_of kv (lit ''0'') of Some v \<Rightarrow> v | None \<Rightarrow> JUndefined)"
| "first_element v = Inr JUndefined"

fun truthy :: "js \<Rightarrow> bool" where
  "truthy JUndefined = False"
| "truthy JNull = False"
| "truthy (JBool b) = b"
| "truthy (JNum x) = (x \<noteq> 0)"
| "truthy (JStr s) = (s \<noteq> [])"
| "truthy v = True"

text \<open>
  \<open>String.prototype.trim\<close> removes white space and line terminators from both ends:
  tab, line feed, vertical tab, form feed, carriage return, space, no-break space,
  U+1680, U+2000 to U+200A, the line and paragraph separators U+2028 and U+2029, U+202F,
  U+205F, U+3000 and the byte order mark U+FEFF.
\<close>

definition is_space :: "code_unit \<Rightarrow> bool" where
  "is_space c =
     (c \<in> {0x0009, 0x000A, 0x000B, 0x000C, 0x000D, 0x0020, 0x00A0, 0x1680,
            0x2028, 0x2029, 0x202F, 0x205F, 0x3000, 0xFEFF}
      \<or> (0x2000 \<le> c \<and> c \<le> 0x200A))"

definition trim :: "js_string \<Rightarrow> js_string" where
  "trim s = rev (dropWhile is_space (rev (dropWhile is_space s)))"

text \<open>\<open>v.trim()\<close>: only a string has the method.\<close>

fun call_trim :: "js \<Rightarrow> js_error + js_string" where
  "call_trim (JStr s) = Inr (trim s)"
| "call_trim v = Inl TypeError"

text \<open>
  The text a template literal \<open>`${v}`\<close> inserts for a value that the program expects to
  be a string. For an inherited member it is the text current engines print for a
  built-in function, or for the prototype object.
\<close>

fun template_text :: "js \<Rightarrow> js_string" where
  "template_text (JStr s) = s"
| "template_text (JNative n) =
     (if n = lit ''__proto__'' then lit ''[object Object]''
      else lit ''function '' @ (if n = lit ''constructor'' then lit ''Object'' else n) @ lit ''() { [native code] }'')"
| "template_text JUndefined = lit ''undefined''"
| "template_text JNull = lit ''null''"
| "template_text (JBool b) = (if b then lit ''true'' else lit ''false'')"
| "template_text v = lit ''[object Object]''"

definition and_then :: "js_error + 'a \<Rightarrow> ('a \<Rightarrow> js_error + 'b) \<Rightarrow> js_error + 'b" where
  "and_then r f = (case r of Inl e \<Rightarrow> Inl e | Inr v \<Rightarrow> f v)"

section \<open>app.js: local storage\<close>

record http_request =
  url :: js_string
  http_method :: js_string
  headers :: "(js_string \<times> js_string) list"
  body :: js

text \<open>
  The state the chat page works on: the two items of local storage it reads (\<open>None\<close> while
  the chats item has never been written), the global \<open>window.currentChat\<close> (its \<open>botId\<close>
  and \<open>chatHistory\<close>), and the requests sent with \<open>fetch\<close> so far, oldest first. The chats
  item is an object keyed by bot id; bot ids are tokens made by \<open>generateId\<close>, and the
  object is modelled as a map. Serialising a value and parsing it back returns the value.
\<close>

record app_state =
  stored_bots :: "bot list"
  stored_chats :: "(js_string \<rightharpoonup> message list) option"
  currentChat :: "(js_string \<times> message list) option"
  posted :: "http_request list"

definition getBotById :: "js_string \<Rightarrow> app_state \<Rightarrow> bot option" where
  "getBotById ident st = find (\<lambda>b. bot_id b = ident) (stored_bots st)"

definition getAllChats :: "app_state \<Rightarrow> (js_string \<rightharpoonup> message list)" where
  "getAllChats st = (case stored_chats st of None \<Rightarrow> Map.empty | Some chats \<Rightarrow> chats)"

definition saveAllChats :: "(js_string \<rightharpoonup> message list) \<Rightarrow> app_state \<Rightarrow> app_state" where
  "saveAllChats chats st = st\<lparr>stored_chats := Some chats\<rparr>"

text \<open>
  \<open>chats[botId]\<close> is a lookup in the map for every bot id that is not the name of a
  member which the object inherits from \<open>Object.prototype\<close>. For such a name (\<open>constructor\<close>,
  \<open>toString\<close>, ...) the code finds the inherited member where the map has nothing:
  \<open>getChatHistory\<close> returns it and \<open>saveChatMessage\<close> throws on its call of \<open>push\<close>. The
  two functions below are the code on all other ids; the theorems on sending a message
  state this condition on the bot id.
\<close>

definition getChatHistory :: "js_string \<Rightarrow> app_state \<Rightarrow> message list" where
  "getChatHistory botId st = (case getAllChats st botId of None \<Rightarrow> [] | Some h \<Rightarrow> h)"

definition saveChatMessage :: "js_string \<Rightarrow> message \<Rightarrow> app_state \<Rightarrow> app_state" where
  "saveChatMessage botId msg st =
     (let chats = getAllChats st;
          chats = (if chats botId = None then chats(botId \<mapsto> []) else chats);
          chats = chats(botId \<mapsto> (case chats botId of None \<Rightarrow> [] | Some h \<Rightarrow> h) @ [msg])
      in saveAllChats chats st)"

section \<open>ai-service.js: the request to the backend\<close>

text \<open>
  What \<open>fetch\<close> gives back: it rejects, or it resolves to a response with its \<open>ok\<close> flag
  and its body, \<open>None\<close> when the body is not JSON and \<open>response.json()\<close> rejects.
\<close>

datatype fetch_result = FetchFailed | Response bool "js option"

text \<open>\<open>data.choices[0].message.content.trim()\<close>.\<close>

definition reply_content :: "js \<Rightarrow> js_error + js_string" where
  "reply_content data =
     and_then (get_member data (lit ''choices'')) (\<lambda>choices.
     and_then (first_element choices) (\<lambda>choice.
     and_then (get_member choice (lit ''message'')) (\<lambda>msg.
     and_then (get_member msg (lit ''content'')) call_trim)))"

text \<open>
  \<open>getAIResponse\<close>: every exception is caught, logged and thrown again, so the function
  returns the reply or fails. The message of the \<open>Error\<close> thrown for a response that is not
  \<open>ok\<close> is not modelled; reading \<open>data.error\<close> for it fails on \<open>null\<close>.
\<close>

definition getAIResponse ::
  "bot \<Rightarrow> js_string \<Rightarrow> message list \<Rightarrow> (http_request \<Rightarrow> fetch_result) \<Rightarrow> app_state
     \<Rightarrow> app_state \<times> (js_error + js_string)" where
  "getAIResponse b userMessage chatHistory fetch st =
     (let messages = prepareConversationHistory b chatHistory userMessage;
          temperature = getToneTemperature (chatTone b)
      in case messages of
           [] \<Rightarrow> (st, Inl TypeError)
         | first # _ \<Rightarrow>
             (let request =
                    \<lparr>url = lit ''http://localhost:3000/chat'', http_method = lit ''POST'',
                     headers = [(lit ''Content-Type'', lit ''application/json'')],
                     body = JObj [(lit ''userMessage'', JStr userMessage),
                                  (lit ''systemPrompt'', JStr (content first))]\<rparr>;
                  st = st\<lparr>posted := posted st @ [request]\<rparr>
              in (st,
                  case fetch request of
                    FetchFailed \<Rightarrow> Inl NetworkError
                  | Response ok parsed \<Rightarrow>
                      (case parsed of
                         None \<Rightarrow> Inl SyntaxError
                       | Some data \<Rightarrow>
                           if \<not> ok then and_then (get_member data (lit ''error'')) (\<lambda>_. Inl BackendError)
                           else reply_content data))))"

section \<open>backend/index.js: the relay\<close>

definition AI_MODEL :: js_string where
  "AI_MODEL = lit ''openai/gpt-3.5-turbo''"

definition formatting_instructions :: js_string where
  "formatting_instructions =
     [0x0A, 0x0A] @ lit ''IMPORTANT: When generating code, use professional formatting:''
     @ [0x0A] @ lit ''- Use proper markdown code blocks with language specification''
     @ [0x0A] @ lit ''- Structure responses clearly with headers and sections''
     @ [0x0A] @ lit ''- Provide clean, well-commented code''
     @ [0x0A] @ lit ''- Use professional language and formatting''
     @ [0x0A] @ lit ''- Format code blocks like: ```language'' @ [0x0A] @ lit ''code here''
     @ [0x0A] @ lit ''```''
     @ [0x0A] @ lit ''- Be concise but comprehensive in explanations''"

text \<open>
  The handler of \<open>POST /chat\<close> up to its call of \<open>fetch\<close>: the body it posts to the
  provider, or the status it rejects the request with (400 when either field is not a
  string; 500 when the body cannot be destructured).
\<close>

definition chat_upstream_body :: "js \<Rightarrow> nat + js" where
  "chat_upstream_body req_body =
     (case (get_member req_body (lit ''userMessage''), get_member req_body (lit ''systemPrompt'')) of
        (Inr (JStr userMessage), Inr (JStr systemPrompt)) \<Rightarrow>
          Inr (JObj [(lit ''model'', JStr AI_MODEL),
                     (lit ''messages'',
                      JArr [JObj [(lit ''role'', JStr (lit ''system'')),
                                  (lit ''content'', JStr (systemPrompt @ formatting_instructions))],
                            JObj [(lit ''role'', JStr (lit ''user'')), (lit ''content'', JStr userMessage)]])])
      | (Inl _, _) \<Rightarrow> Inl 500
      | (_, Inl _) \<Rightarrow> Inl 500
      | _ \<Rightarrow> Inl 400)"











section \<open>app.js: the chat page\<close>

text \<open>
  \<open>getWelcomeMessage\<close> reads the table \<open>toneMessages\<close>, an object literal, at the key
  \<open>bot.chatTone\<close> and falls back to the entry of \<open>Normal\<close> when the value read is falsy.
\<close>

definition toneMessages :: js where
  "toneMessages = JObj
     [(lit ''Normal'', JStr (lit ''How can I help you today?'')),
      (lit ''Romantic'', JStr (lit ''I've been waiting for you. What would you like to talk about?'')),
      (lit ''Flirty'', JStr (lit ''Hey there! I'm so excited to chat with you. What's on your mind?'')),
      (lit ''Spicy'', JStr (lit ''Well hello there... I've been looking forward to our conversation. What are you in the mood for?''))]"

definition getWelcomeMessage :: "bot \<Rightarrow> js_error + js" where
  "getWelcomeMessage b =
     and_then (get_member toneMessages (chatTone b)) (\<lambda>v.
       if truthy v then Inr v else get_member toneMessages (lit ''Normal''))"

text \<open>
  What \<open>initChatPage\<close> finds in the document and in the address: the \<open>.chat-container\<close>
  element, the \<open>id\<close> parameter, the \<open>.chat-messages\<close> element, and the form with its input.
\<close>

record chat_page =
  has_chat_container :: bool
  url_id :: "js_string option"
  has_chat_messages :: bool
  has_chat_input :: bool

text \<open>
  \<open>initChatPage\<close> up to the registration of the submit handler. It returns the state and
  the variables \<open>botId\<close> and \<open>bot\<close> that the registered handler closes over, \<open>None\<close> when no
  handler is registered. The rendering of the messages is not part of the state.
\<close>

definition initChatPage :: "chat_page \<Rightarrow> int \<Rightarrow> app_state \<Rightarrow> app_state \<times> (js_string \<times> bot) option" where
  "initChatPage pg now st =
     (if \<not> has_chat_container pg then (st, None)
      else case url_id pg of
        None \<Rightarrow> (st, None)
      | Some botId \<Rightarrow>
          (if botId = [] then (st, None)
           else (case getBotById botId st of
             None \<Rightarrow> (st, None)
           | Some b \<Rightarrow>
               (let chatHistory = getChatHistory botId st;
                    st = st\<lparr>currentChat := Some (botId, [])\<rparr>;
                    st = (if has_chat_messages pg then
                            (if length chatHistory > 0 then st
                             else (case getWelcomeMessage b of
                               Inl e \<Rightarrow> st
                             | Inr w \<Rightarrow>
                                 (let welcomeMessage =
                                        \<lparr>sender = lit ''bot'',
                                         text = lit ''Hello! I'm '' @ name b @ lit ''. '' @ template_text w,
                                         timestamp = now\<rparr>
                                  in saveChatMessage botId welcomeMessage st)))
                          else st)
                in (st, if has_chat_input pg then Some (botId, b) else None)))))"

text \<open>
  The submit handler up to its \<open>setTimeout\<close>: the input is ignored when it is blank; the
  handler fails before it stores anything when there is no \<open>.chat-messages\<close> element to
  render into (\<open>addMessageToChat\<close> reads \<open>container.children\<close>); otherwise the timer
  callback is pending with \<open>messageText\<close> and \<open>latestHistory\<close>.
\<close>

datatype submit_result = Ignored | Failed js_error | Pending js_string "message list"

definition onSubmit :: "chat_page \<Rightarrow> js_string \<Rightarrow> js_string \<Rightarrow> int \<Rightarrow> app_state \<Rightarrow> app_state \<times> submit_result" where
  "onSubmit pg botId input_value now st =
     (let messageText = trim input_value
      in if messageText = [] then (st, Ignored)
         else
           (let userMessage = \<lparr>sender = lit ''user'', text = messageText, timestamp = now\<rparr>
            in if \<not> has_chat_messages pg then (st, Failed TypeError)
               else
                 (let st = saveChatMessage botId userMessage st;
                      st = (case currentChat st of
                              None \<Rightarrow> st
                            | Some (cid, chatHistory) \<Rightarrow>
                                st\<lparr>currentChat := Some (cid, chatHistory @ [userMessage])\<rparr>);
                      latestHistory = getChatHistory botId st
                  in (st, Pending messageText latestHistory))))"

text \<open>
  The timer callback: the reply is stored as a \<open>bot\<close> message; a failure of
  \<open>getAIResponse\<close> is caught and shown as a notice (the flag returned), nothing else.
\<close>

definition onTimer ::
  "js_string \<Rightarrow> bot \<Rightarrow> js_string \<Rightarrow> message list \<Rightarrow> (http_request \<Rightarrow> fetch_result) \<Rightarrow> int \<Rightarrow> app_state
     \<Rightarrow> app_state \<times> bool" where
  "onTimer botId b messageText latestHistory fetch now st =
     (case getAIResponse b messageText latestHistory fetch st of
        (st, Inr botResponse) \<Rightarrow>
          (let botMessage = \<lparr>sender = lit ''bot'', text = botResponse, timestamp = now\<rparr>
           in (saveChatMessage botId botMessage st, False))
      | (st, Inl e) \<Rightarrow> (st, True))"

text \<open>One send: the submit handler, then its timer callback when one is pending.\<close>

definition send_message ::
  "chat_page \<Rightarrow> js_string \<Rightarrow> bot \<Rightarrow> js_string \<Rightarrow> int \<Rightarrow> (http_request \<Rightarrow> fetch_result) \<Rightarrow> int \<Rightarrow> app_state
     \<Rightarrow> app_state \<times> bool" where
  "send_message pg botId b input_value now fetch later st =
     (case onSubmit pg botId input_value now st of
        (st, Pending messageText latestHistory) \<Rightarrow>
          onTimer botId b messageText latestHistory fetch later st
      | (st, r) \<Rightarrow> (st, False))"

text \<open>
  The value of \<open>messages\<close> in \<open>getAIResponse\<close> when the timer callback of a submit calls
  it: the window built for the completion call.
\<close>

definition completion_window :: "bot \<Rightarrow> submit_result \<Rightarrow> chat_entry list option" where
  "completion_window b r =
     (case r of
        Pending messageText latestHistory \<Rightarrow>
          Some (prepareConversationHistory b latestHistory messageText)
      | _ \<Rightarrow> None)"

section \<open>app.js: deleting messages\<close>

text \<open>
  \<open>Array.prototype.splice\<close>, by the array it leaves behind. The start index is clamped
  as for \<open>slice\<close>; \<open>splice(start)\<close> removes everything from there on, \<open>splice(start, n)\<close>
  removes at most \<open>n\<close> elements.
\<close>

definition splice_start :: "int \<Rightarrow> nat \<Rightarrow> nat" where
  "splice_start start len = (if start < 0 then nat (max (int len + start) 0) else min (nat start) len)"

definition splice_to_end :: "int \<Rightarrow> 'a list \<Rightarrow> 'a list" where
  "splice_to_end start xs = take (splice_start start (length xs)) xs"

definition splice_count :: "int \<Rightarrow> nat \<Rightarrow> 'a list \<Rightarrow> 'a list" where
  "splice_count start n xs =
     (let k = splice_start start (length xs) in take k xs @ drop (k + n) xs)"

text \<open>
  \<open>handleDeleteMessage\<close>, given what it reads from the document: the position \<open>index\<close> of
  the message element among the message elements of its container (\<open>indexOf\<close>, -1 when
  absent), the element's \<open>dataset.sender\<close>, whether the element has a parent, and the
  answer to the confirmation dialog.
\<close>

definition handleDeleteMessage :: "int \<Rightarrow> js_string \<Rightarrow> bool \<Rightarrow> bool \<Rightarrow> app_state \<Rightarrow> app_state" where
  "handleDeleteMessage index element_sender has_parent confirmed st =
     (case currentChat st of
        None \<Rightarrow> st
      | Some (botId, _) \<Rightarrow>
          if botId = [] then st
          else if \<not> has_parent then st
          else if \<not> confirmed then st
          else
            (let chats = getAllChats st;
                 history = (case chats botId of None \<Rightarrow> [] | Some h \<Rightarrow> h);
                 history = (if element_sender = lit ''user'' then splice_to_end index history
                            else splice_count index 1 history);
                 chats = chats(botId \<mapsto> history);
                 st = saveAllChats chats st
             in st\<lparr>currentChat := Some (botId, history)\<rparr>))"

section \<open>app.js: the message formatter\<close>

text \<open>
  \<open>s.replace(/c/g, r)\<close> for a single character \<open>c\<close> and a replacement without \<open>$\<close>.
\<close>

definition replace_char :: "code_unit \<Rightarrow> js_string \<Rightarrow> js_string \<Rightarrow> js_string" where
  "replace_char c r s = concat (map (\<lambda>x. if x = c then r else [x]) s)"

text \<open>
  \<open>s.replace(re, ...)\<close> for a regular expression with the \<open>g\<close> flag that cannot match
  the empty string at the end of the input. The expression is given by its matcher: for
  the code unit before the current position (\<open>None\<close> at the start of the input) and the
  input from the current position on, the replacement text and the number of characters
  matched, or \<open>None\<close> when there is no match at this position. The search goes on after
  the match, or one code unit further when there is none.
\<close>

function replace_all ::
  "(code_unit option \<Rightarrow> js_string \<Rightarrow> (js_string \<times> nat) option) \<Rightarrow> code_unit option \<Rightarrow> js_string \<Rightarrow> js_string" where
  "replace_all m prev [] = []"
| "replace_all m prev (c # cs) =
     (case m prev (c # cs) of
        None \<Rightarrow> c # replace_all m (Some c) cs
      | Some (out, n) \<Rightarrow>
          if n = 0 then out @ c # replace_all m (Some c) cs
          else out @ replace_all m (Some (last (take n (c # cs)))) (drop n (c # cs)))"
  by pat_completeness auto
termination
  by (relation "measure (\<lambda>(m, prev, s). length s)") auto

text \<open>
  The character classes, on code units since no expression has the \<open>u\<close> flag: \<open>\w\<close>, the
  ASCII letters, digits and the underscore; the line terminators, line feed, carriage
  return, U+2028 and U+2029; \<open>[\s\S]\<close>, any code unit; and \<open>.\<close>, any code unit but a line
  terminator.
\<close>

definition is_word :: "code_unit \<Rightarrow> bool" where
  "is_word c = (c \<in> set (lit ''abcdefghijklmnopqrstuvwxyz'' @ lit ''ABCDEFGHIJKLMNOPQRSTUVWXYZ''
                          @ lit ''0123456789_''))"

definition is_line_terminator :: "code_unit \<Rightarrow> bool" where
  "is_line_terminator c = (c = 0x000A \<or> c = 0x000D \<or> c = 0x2028 \<or> c = 0x2029)"

definition any_char :: "code_unit \<Rightarrow> bool" where
  "any_char c = True"

definition dot :: "code_unit \<Rightarrow> bool" where
  "dot c = (\<not> is_line_terminator c)"

text \<open>
  \<open>X*?d\<close> and \<open>X+?d\<close> for a character class \<open>X\<close> and a literal \<open>d\<close>: the shortest run of
  characters of the class (at least one for \<open>+?\<close>) after which \<open>d\<close> follows; the result is
  the run.
\<close>

fun lazy_star :: "(code_unit \<Rightarrow> bool) \<Rightarrow> js_string \<Rightarrow> js_string \<Rightarrow> js_string option" where
  "lazy_star ok d [] = None"
| "lazy_star ok d (c # cs) =
     (if take (length d) (c # cs) = d then Some []
      else if \<not> ok c then None
      else map_option ((#) c) (lazy_star ok d cs))"

definition lazy_plus :: "(code_unit \<Rightarrow> bool) \<Rightarrow> js_string \<Rightarrow> js_string \<Rightarrow> js_string option" where
  "lazy_plus ok d s =
     (case s of
        [] \<Rightarrow> None
      | c # cs \<Rightarrow> if \<not> ok c then None else map_option ((#) c) (lazy_star ok d cs))"

text \<open>
  \<open>/```(\w+)?\n([\s\S]*?)```/g\<close> with its replacement function. The group \<open>(\w+)?\<close> takes
  the longest run of word characters; no shorter run can be followed by the line feed.
\<close>

definition code_block_match :: "code_unit option \<Rightarrow> js_string \<Rightarrow> (js_string \<times> nat) option" where
  "code_block_match prev s =
     (if take 3 s = lit ''```'' then
        (let language = takeWhile is_word (drop 3 s)
         in case dropWhile is_word (drop 3 s) of
              [] \<Rightarrow> None
            | c # rest \<Rightarrow>
                if c \<noteq> 0x000A then None
                else (case lazy_star any_char (lit ''```'') rest of
                        None \<Rightarrow> None
                      | Some code \<Rightarrow>
                          (let lang = (if language = [] then lit ''text'' else language)
                           in Some (lit ''<pre class=\"code-block\"><code class=\"language-'' @ lang @ lit ''\">''
                                    @ trim code @ lit ''</code></pre>'',
                                    3 + length language + 1 + length code + 3))))
      else None)"

text \<open>
  \<open>/`([^`]+)`/g\<close> with the replacement \<open><code class="inline-code">$1</code>\<close>.
\<close>

definition inline_code_match :: "code_unit option \<Rightarrow> js_string \<Rightarrow> (js_string \<times> nat) option" where
  "inline_code_match prev s =
     (if take 1 s = lit ''`'' then
        (let inner = takeWhile (\<lambda>c. c \<noteq> of_char CHR ''`'') (drop 1 s)
         in if inner \<noteq> [] \<and> dropWhile (\<lambda>c. c \<noteq> of_char CHR ''`'') (drop 1 s) \<noteq> []
            then Some (lit ''<code class=\"inline-code\">'' @ inner @ lit ''</code>'', length inner + 2)
            else None)
      else None)"

text \<open>
  \<open>/^### (.+)$/gm\<close>, \<open>/^## (.+)$/gm\<close> and \<open>/^# (.+)$/gm\<close> with the replacements
  \<open><h5>$1</h5>\<close>, \<open><h4>$1</h4>\<close> and \<open><h3>$1</h3>\<close>: \<open>^\<close> holds at the start of the input and
  after a line terminator, \<open>(.+)\<close> runs to the end of the line, where \<open>$\<close> holds.
\<close>

definition header_match :: "js_string \<Rightarrow> js_string \<Rightarrow> code_unit option \<Rightarrow> js_string \<Rightarrow> (js_string \<times> nat) option" where
  "header_match marks tag prev s =
     (if (case prev of None \<Rightarrow> True | Some p \<Rightarrow> is_line_terminator p)
         \<and> take (length marks) s = marks then
        (let line = takeWhile dot (drop (length marks) s)
         in if line = [] then None
            else Some (lit ''<'' @ tag @ lit ''>'' @ line @ lit ''</'' @ tag @ lit ''>'', length marks + length line))
      else None)"

text \<open>
  \<open>/\*\*(.+?)\*\*/g\<close> and \<open>/\*(.+?)\*/g\<close> with the replacements \<open><strong>$1</strong>\<close> and
  \<open><em>$1</em>\<close>.
\<close>

definition emphasis_match :: "js_string \<Rightarrow> js_string \<Rightarrow> code_unit option \<Rightarrow> js_string \<Rightarrow> (js_string \<times> nat) option" where
  "emphasis_match stars tag prev s =
     (if take (length stars) s = stars then
        (case lazy_plus dot stars (drop (length stars) s) of
           None \<Rightarrow> None
         | Some inner \<Rightarrow>
             Some (lit ''<'' @ tag @ lit ''>'' @ inner @ lit ''</'' @ tag @ lit ''>'', 2 * length stars + length inner))
      else None)"

text \<open>
  \<open>typeof v\<close>, and the first method call of the formatter, \<open>msg.replace(/&/g, '&amp;')\<close>,
  on any value: only a string has the method \<open>replace\<close>. Reading the member throws a
  \<open>TypeError\<close> on \<open>undefined\<close> and \<open>null\<close>; a boolean, a number, an array and a built-in
  function have no member of this name, nor has \<open>Object.prototype\<close>, and calling
  \<open>undefined\<close> throws a \<open>TypeError\<close>. So does the call on an object, which has the member
  only as a property of its own: the objects that the program builds or parses hold no
  function.
\<close>

fun typeof :: "js \<Rightarrow> js_string" where
  "typeof JUndefined = lit ''undefined''"
| "typeof JNull = lit ''object''"
| "typeof (JBool b) = lit ''boolean''"
| "typeof (JNum x) = lit ''number''"
| "typeof (JStr s) = lit ''string''"
| "typeof (JArr xs) = lit ''object''"
| "typeof (JObj kv) = lit ''object''"
| "typeof (JNative n) = (if n = lit ''__proto__'' then lit ''object'' else lit ''function'')"

fun call_replace_char :: "js \<Rightarrow> code_unit \<Rightarrow> js_string \<Rightarrow> js_error + js_string" where
  "call_replace_char (JStr s) c r = Inr (replace_char c r s)"
| "call_replace_char v c r = Inl TypeError"

text \<open>
  The body of \<open>formatMessage\<close> after its first line, on any value. After the first call of
  \<open>replace\<close> every value is a string, and \<open>replace\<close> and \<open>trim\<close> on a string do not throw.
\<close>

definition format_text :: "js \<Rightarrow> js_error + js_string" where
  "format_text msg =
     and_then (call_replace_char msg (of_char CHR ''&'') (lit ''&amp;'')) (\<lambda>ampersands.
       (let escaped = replace_char (of_char CHR ''>'') (lit ''&gt;'')
                        (replace_char (of_char CHR ''<'') (lit ''&lt;'') ampersands);
            codeBlocksConverted = replace_all code_block_match None escaped;
            inlineCodeConverted = replace_all inline_code_match None codeBlocksConverted;
            headersConverted =
              replace_all (header_match (lit ''# '') (lit ''h3'')) None
                (replace_all (header_match (lit ''## '') (lit ''h4'')) None
                   (replace_all (header_match (lit ''### '') (lit ''h5'')) None inlineCodeConverted));
            boldConverted = replace_all (emphasis_match (lit ''**'') (lit ''strong'')) None headersConverted;
            italicConverted = replace_all (emphasis_match (lit ''*'') (lit ''em'')) None boldConverted;
            lineBreaksConverted = replace_char 0x000A (lit ''<br>'') italicConverted
        in Inr lineBreaksConverted))"

text \<open>
  \<open>formatMessage\<close>: \<open>if (typeof msg !== 'string') return '';\<close> and then the body.
\<close>

definition formatMessage :: "js \<Rightarrow> js_error + js_string" where
  "formatMessage msg = (if typeof msg \<noteq> lit ''string'' then Inr [] else format_text msg)"

section \<open>The specification's wording\<close>

text \<open>
  The window as the specification words it: the last \<open>min (length history) 10\<close> messages
  of the history, in their order.
\<close>

definition trailing_history :: "message list \<Rightarrow> message list" where
  "trailing_history history = drop (length history - min (length history) 10) history"

text \<open>
  The request body as the specification words it: an object with a \<open>model\<close>, the window
  as its \<open>messages\<close> array of \<open>{role, content}\<close> objects, and the \<open>temperature\<close>.
\<close>

definition entry_json :: "chat_entry \<Rightarrow> js" where
  "entry_json e = JObj [(lit ''role'', JStr (role e)), (lit ''content'', JStr (content e))]"

definition carries_window :: "js \<Rightarrow> chat_entry list \<Rightarrow> real \<Rightarrow> bool" where
  "carries_window request_body window temperature =
     ((case get_member request_body (lit ''model'') of Inr (JStr m) \<Rightarrow> True | _ \<Rightarrow> False)
      \<and> get_member request_body (lit ''messages'') = Inr (JArr (map entry_json window))
      \<and> get_member request_body (lit ''temperature'') = Inr (JNum temperature))"

text \<open>
  The welcome table as the specification words it: one text for each of the four tones,
  the text of \<open>Normal\<close> for every other tone.
\<close>

definition welcome_text :: "js_string \<Rightarrow> js_string" where
  "welcome_text tone =
     (if tone = lit ''Romantic'' then lit ''I've been waiting for you. What would you like to talk about?''
      else if tone = lit ''Flirty'' then lit ''Hey there! I'm so excited to chat with you. What's on your mind?''
      else if tone = lit ''Spicy'' then
        lit ''Well hello there... I've been looking forward to our conversation. What are you in the mood for?''
      else lit ''How can I help you today?'')"

text \<open>
  Text in which no raw \<open><\<close>, \<open>>\<close> or \<open>&\<close> stands: a sequence of characters other than
  these three and of pieces, each piece written whole. Escaped text has the three
  entities as its pieces; the markup that the formatter returns has the entities and the
  formatter's own tags, of which the tag that opens a code block holds the language, a
  run of word characters.
\<close>

definition entity :: "js_string \<Rightarrow> bool" where
  "entity p = (p \<in> {lit ''&amp;'', lit ''&lt;'', lit ''&gt;''})"

definition formatter_tag :: "js_string \<Rightarrow> bool" where
  "formatter_tag p =
     (p \<in> {lit ''<pre class=\"code-block\">'', lit ''</pre>'', lit ''<code class=\"inline-code\">'', lit ''</code>'',
            lit ''<h3>'', lit ''</h3>'', lit ''<h4>'', lit ''</h4>'', lit ''<h5>'', lit ''</h5>'',
            lit ''<strong>'', lit ''</strong>'', lit ''<em>'', lit ''</em>'', lit ''<br>''}
      \<or> (let w = takeWhile is_word (drop 22 p)
          in w \<noteq> [] \<and> p = lit ''<code class=\"language-'' @ w @ lit ''\">''))"

definition markup_piece :: "js_string \<Rightarrow> bool" where
  "markup_piece p = (entity p \<or> formatter_tag p)"

inductive pieces_text :: "(js_string \<Rightarrow> bool) \<Rightarrow> js_string \<Rightarrow> bool" for P :: "js_string \<Rightarrow> bool" where
  Nil: "pieces_text P []"
| Plain: "c \<notin> {of_char CHR ''<'', of_char CHR ''>'', of_char CHR ''&''} \<Longrightarrow> pieces_text P s \<Longrightarrow> pieces_text P (c # s)"
| Piece: "P p \<Longrightarrow> pieces_text P s \<Longrightarrow> pieces_text P (p @ s)"

abbreviation escaped_text :: "js_string \<Rightarrow> bool" where
  "escaped_text \<equiv> pieces_text entity"

abbreviation markup_text :: "js_string \<Rightarrow> bool" where
  "markup_text \<equiv> pieces_text markup_piece"

section \<open>Auxiliary notions\<close>

text \<open>The request that \<open>getAIResponse\<close> builds, by its two fields.\<close>

definition chat_request :: "js_string \<Rightarrow> js_string \<Rightarrow> http_request" where
  "chat_request userMessage systemPrompt =
     \<lparr>url = lit ''http://localhost:3000/chat'', http_method = lit ''POST'',
      headers = [(lit ''Content-Type'', lit ''application/json'')],
      body = JObj [(lit ''userMessage'', JStr userMessage), (lit ''systemPrompt'', JStr systemPrompt)]\<rparr>"

text \<open>
  The code units at which the markup rules cut their input (the backtick, the asterisk,
  the hash and the line terminators): none of them occurs in a piece, and a match of a
  rule starts at one of them.
\<close>

definition markers :: "code_unit set" where
  "markers =
     {of_char CHR ''`'', of_char CHR ''*'', of_char CHR ''#'', 0x000A, 0x000D, 0x2028, 0x2029}"

text \<open>
  What the proofs need of a set of pieces: a piece is not empty, starts with \<open><\<close> or
  \<open>&\<close>, and holds none of the characters at which the rules cut.
\<close>

definition clean_pieces :: "(js_string \<Rightarrow> bool) \<Rightarrow> bool" where
  "clean_pieces P =
     (\<forall>p. P p \<longrightarrow> p \<noteq> [] \<and> hd p \<in> {of_char CHR ''<'', of_char CHR ''&''} \<and> set p \<inter> markers = {})"

section \<open>Example values\<close>

text \<open>
  A bot, a transcript of fifteen messages that starts with the welcome message and then
  alternates, the state of a chat page open on it, a page with all its elements, the state
  before the first visit of a bot whose tone is \<open>constructor\<close>, a network that is down,
  an environment of the relay, and a provider that answers every request with an error.
\<close>

definition ava :: bot where
  "ava = \<lparr>bot_id = lit ''b1'', name = lit ''Ava'', description = lit ''a patient tutor'',
          ageCategory = lit ''SFW (12+)'', chatTone = lit ''Normal''\<rparr>"

definition mk_message :: "js_string \<Rightarrow> js_string \<Rightarrow> int \<Rightarrow> message" where
  "mk_message s t ts = \<lparr>sender = s, text = t, timestamp = ts\<rparr>"

definition fifteen :: "message list" where
  "fifteen =
     [mk_message (lit ''bot'') (lit ''m1'') 1, mk_message (lit ''user'') (lit ''m2'') 2, mk_message (lit ''bot'') (lit ''m3'') 3,
      mk_message (lit ''user'') (lit ''m4'') 4, mk_message (lit ''bot'') (lit ''m5'') 5, mk_message (lit ''user'') (lit ''m6'') 6,
      mk_message (lit ''bot'') (lit ''m7'') 7, mk_message (lit ''user'') (lit ''m8'') 8, mk_message (lit ''bot'') (lit ''m9'') 9,
      mk_message (lit ''user'') (lit ''m10'') 10, mk_message (lit ''bot'') (lit ''m11'') 11, mk_message (lit ''user'') (lit ''m12'') 12,
      mk_message (lit ''bot'') (lit ''m13'') 13, mk_message (lit ''user'') (lit ''m14'') 14, mk_message (lit ''bot'') (lit ''m15'') 15]"

definition st15 :: app_state where
  "st15 = \<lparr>stored_bots = [ava], stored_chats = Some [lit ''b1'' \<mapsto> fifteen],
           currentChat = Some (lit ''b1'', []), posted = []\<rparr>"

definition full_page :: chat_page where
  "full_page = \<lparr>has_chat_container = True, url_id = Some (lit ''b1''),
                 has_chat_messages = True, has_chat_input = True\<rparr>"

definition st_new :: app_state where
  "st_new = \<lparr>stored_bots = [ava\<lparr>chatTone := lit ''constructor''\<rparr>], stored_chats = None,
             currentChat = None, posted = []\<rparr>"

definition no_network :: "http_request \<Rightarrow> fetch_result" where
  "no_network request = FetchFailed"



section \<open>String literals\<close>

lemma word_of_char: "(of_char c :: code_unit) = of_nat (of_char c)"
  by (simp add: of_nat_of_char)

lemma unat_of_char: "unat (of_char c :: code_unit) = of_char c"
proof -
  have "(256 :: nat) \<le> 2 ^ 16"
    by simp
  with nat_of_char_less_256 [of c] have "(of_char c :: nat) < 2 ^ 16"
    by (rule less_le_trans)
  then show ?thesis
    by (simp add: word_of_char unat_of_nat del: of_nat_of_char)
qed

lemma of_char_inj [simp]: "(of_char a :: code_unit) = of_char b \<longleftrightarrow> a = b"
proof
  assume "(of_char a :: code_unit) = of_char b"
  then have "unat (of_char a :: code_unit) = unat (of_char b :: code_unit)"
    by simp
  then have "(of_char a :: nat) = of_char b"
    by (simp only: unat_of_char)
  then show "a = b"
    by simp
qed simp

lemma lit_eq_iff [simp]: "lit a = lit b \<longleftrightarrow> a = b"
  unfolding lit_def by (rule inj_map_eq_map) (simp add: inj_on_def)

lemma lit_Nil [simp]: "lit [] = []"
  by (simp add: lit_def)

lemma lit_eq_Nil [simp]: "lit a = [] \<longleftrightarrow> a = []" "[] = lit a \<longleftrightarrow> a = []"
  by (auto simp: lit_def)


lemma lit_append: "lit (a @ b) = lit a @ lit b"
  by (simp add: lit_def)

lemma length_lit [simp]: "length (lit s) = length s"
  by (simp add: lit_def)

section \<open>The conversation window\<close>

lemma foldl_push: "foldl (\<lambda>acc x. acc @ [f x]) acc xs = acc @ map f xs"
  by (induction xs arbitrary: acc) simp_all

lemma slice_from_last_ten: "slice_from (- 10) xs = drop (length xs - 10) xs"
proof -
  have "nat (max (int (length xs) + - 10) 0) = length xs - 10"
    by arith
  then show ?thesis
    by (simp add: slice_from_def Let_def)
qed

lemma prepareConversationHistory_eq:
  "prepareConversationHistory b h m =
     \<lparr>role = lit ''system'', content = createPersonalityPrompt b\<rparr>
       # map history_entry (drop (length h - 10) h) @ [\<lparr>role = lit ''user'', content = m\<rparr>]"
  by (simp add: prepareConversationHistory_def Let_def foldl_push slice_from_last_ten)

text \<open>
  Claim C1. For every bot, history and new user message, the window is the system entry
  holding the compiled persona prompt, then the last \<open>min (length history) 10\<close> history
  messages in their original order, each with its role mapped (\<open>user\<close> to \<open>user\<close>, \<open>bot\<close>
  to \<open>assistant\<close>) and its text as content, then one \<open>user\<close> entry holding the new message;
  its length is \<open>2 + min (length history) 10\<close>, which is at most 12.
\<close>

theorem prepareConversationHistory_window:
  "prepareConversationHistory b h m =
     [\<lparr>role = lit ''system'', content = createPersonalityPrompt b\<rparr>]
       @ map history_entry (trailing_history h)
       @ [\<lparr>role = lit ''user'', content = m\<rparr>]
   \<and> length (trailing_history h) = min (length h) 10
   \<and> history_entry \<lparr>sender = lit ''user'', text = t, timestamp = ts\<rparr> = \<lparr>role = lit ''user'', content = t\<rparr>
   \<and> history_entry \<lparr>sender = lit ''bot'', text = t, timestamp = ts\<rparr> = \<lparr>role = lit ''assistant'', content = t\<rparr>
   \<and> length (prepareConversationHistory b h m) = 2 + min (length h) 10
   \<and> length (prepareConversationHistory b h m) \<le> 12"
proof -
  have tr: "trailing_history h = drop (length h - 10) h"
    by (simp add: trailing_history_def min_def)
  have len: "length (trailing_history h) = min (length h) 10"
    unfolding tr by (simp add: min_def)
  have win: "prepareConversationHistory b h m =
      [\<lparr>role = lit ''system'', content = createPersonalityPrompt b\<rparr>]
        @ map history_entry (trailing_history h) @ [\<lparr>role = lit ''user'', content = m\<rparr>]"
    by (simp add: prepareConversationHistory_eq tr)
  have n: "length (prepareConversationHistory b h m) = 2 + min (length h) 10"
    unfolding win by (simp add: len)
  show ?thesis
    using win len n by (simp add: history_entry_def)
qed

section \<open>Storage and the steps of a send\<close>

lemma trim_m16: "trim (lit ''m16'') = lit ''m16''"
  by (simp add: trim_def is_space_def lit_def)

lemma getChatHistory_saveChatMessage:
  "getChatHistory botId (saveChatMessage botId msg st) = getChatHistory botId st @ [msg]"
  by (simp add: getChatHistory_def saveChatMessage_def saveAllChats_def getAllChats_def Let_def
      split: option.splits)

lemma getChatHistory_currentChat [simp]:
  "getChatHistory botId (st\<lparr>currentChat := c\<rparr>) = getChatHistory botId st"
  by (simp add: getChatHistory_def getAllChats_def)

lemma getChatHistory_posted [simp]:
  "getChatHistory botId (st\<lparr>posted := c\<rparr>) = getChatHistory botId st"
  by (simp add: getChatHistory_def getAllChats_def)

lemma saveChatMessage_other [simp]:
  "currentChat (saveChatMessage botId msg st) = currentChat st"
  "posted (saveChatMessage botId msg st) = posted st"
  "stored_bots (saveChatMessage botId msg st) = stored_bots st"
  by (simp_all add: saveChatMessage_def saveAllChats_def Let_def)

lemma onSubmit_pending:
  assumes "has_chat_messages pg" and "trim v \<noteq> []"
  shows "snd (onSubmit pg botId v now st) =
           Pending (trim v)
             (getChatHistory botId st @ [\<lparr>sender = lit ''user'', text = trim v, timestamp = now\<rparr>])"
    and "getChatHistory botId (fst (onSubmit pg botId v now st)) =
           getChatHistory botId st @ [\<lparr>sender = lit ''user'', text = trim v, timestamp = now\<rparr>]"
    and "posted (fst (onSubmit pg botId v now st)) = posted st"
  using assms
  by (simp_all add: onSubmit_def Let_def getChatHistory_saveChatMessage
      split: option.splits prod.splits)

lemma getChatHistory_st15: "getChatHistory (lit ''b1'') st15 = fifteen"
  by (simp add: getChatHistory_def getAllChats_def st15_def)

lemma getAIResponse_posted:
  "posted (fst (getAIResponse b userMessage chatHistory fetch st)) =
     posted st @ [chat_request userMessage (createPersonalityPrompt b)]"
  by (simp add: getAIResponse_def prepareConversationHistory_eq Let_def chat_request_def)


lemma getChatHistory_cong:
  "stored_chats st' = stored_chats st \<Longrightarrow> getChatHistory botId st' = getChatHistory botId st"
  by (simp add: getChatHistory_def getAllChats_def)

lemma onTimer_posted:
  "posted (fst (onTimer botId b t h fetch later st)) =
     posted st @ [chat_request t (createPersonalityPrompt b)]"
  using getAIResponse_posted [of b t h fetch st]
  by (auto simp: onTimer_def Let_def split: prod.splits sum.splits)

lemma chat_upstream_body_chat_request:
  "chat_upstream_body (body (chat_request userMessage systemPrompt)) =
     Inr (JObj [(lit ''model'', JStr AI_MODEL),
                (lit ''messages'',
                 JArr [JObj [(lit ''role'', JStr (lit ''system'')),
                             (lit ''content'', JStr (systemPrompt @ formatting_instructions))],
                       JObj [(lit ''role'', JStr (lit ''user'')), (lit ''content'', JStr userMessage)]])])"
  by (simp add: chat_upstream_body_def chat_request_def)

section \<open>The persona prompt\<close>

lemma toneInstructions_unrecognized:
  "tone \<notin> {lit ''Normal'', lit ''Romantic'', lit ''Flirty'', lit ''Spicy''} \<Longrightarrow> toneInstructions tone = []"
  by (simp add: toneInstructions_def)

text \<open>
  Claim C3, as amended. For every bot whose \<open>chatTone\<close> is not one of \<open>Normal\<close>,
  \<open>Romantic\<close>, \<open>Flirty\<close> and \<open>Spicy\<close>, \<open>createPersonalityPrompt\<close> adds no tone clause at
  all: the prompt is the base sentence with the name and the description, the age clause
  and the closing sentence.
\<close>

theorem createPersonalityPrompt_unrecognized_tone:
  assumes "chatTone b \<notin> {lit ''Normal'', lit ''Romantic'', lit ''Flirty'', lit ''Spicy''}"
  shows "createPersonalityPrompt b =
           lit ''You are '' @ name b @ lit '', an AI companion with the following personality: ''
           @ description b @ ageInstructions (ageCategory b)
           @ lit '' Respond in a way that's consistent with your personality. Be engaging and maintain the conversation flow.''"
  using toneInstructions_unrecognized [OF assms]
  by (simp add: createPersonalityPrompt_def Let_def)

theorem createPersonalityPrompt_unrecognized_tone_witness:
  "chatTone (ava\<lparr>chatTone := lit ''Custom''\<rparr>) \<notin> {lit ''Normal'', lit ''Romantic'', lit ''Flirty'', lit ''Spicy''}
   \<and> createPersonalityPrompt (ava\<lparr>chatTone := lit ''Custom''\<rparr>) =
       lit ''You are Ava, an AI companion with the following personality: a patient tutor Keep all responses appropriate for all ages. Avoid any adult content, innuendo, or explicit language. Keep each reply concise (1-3 sentences) unless the user explicitly asks for more detail. Respond in a way that's consistent with your personality. Be engaging and maintain the conversation flow.''"
  using createPersonalityPrompt_unrecognized_tone [of "ava\<lparr>chatTone := lit ''Custom''\<rparr>"]
  by (simp add: ava_def ageInstructions_def lit_append [symmetric])

lemma createPersonalityPrompt_length:
  "length (createPersonalityPrompt b) =
     length (name b) + length (description b) + length (toneInstructions (chatTone b))
     + length (ageInstructions (ageCategory b)) + 164"
  by (simp add: createPersonalityPrompt_def Let_def)

text \<open>
  Claim C3 as stated fails: with the tone \<open>Custom\<close> the prompt differs from the prompt of
  the same bot with the tone \<open>Normal\<close>.
\<close>

theorem unrecognized_tone_counterexample:
  "chatTone (ava\<lparr>chatTone := lit ''Custom''\<rparr>) \<notin> {lit ''Normal'', lit ''Romantic'', lit ''Flirty'', lit ''Spicy''}
   \<and> createPersonalityPrompt (ava\<lparr>chatTone := lit ''Custom''\<rparr>)
       \<noteq> createPersonalityPrompt (ava\<lparr>chatTone := lit ''Normal''\<rparr>)"
proof -
  have "length (createPersonalityPrompt (ava\<lparr>chatTone := lit ''Custom''\<rparr>))
        \<noteq> length (createPersonalityPrompt (ava\<lparr>chatTone := lit ''Normal''\<rparr>))"
    by (simp add: createPersonalityPrompt_length toneInstructions_def ava_def)
  then have "createPersonalityPrompt (ava\<lparr>chatTone := lit ''Custom''\<rparr>)
        \<noteq> createPersonalityPrompt (ava\<lparr>chatTone := lit ''Normal''\<rparr>)"
    by metis
  then show ?thesis by (simp add: ava_def)
qed

section \<open>The window of a send\<close>

text \<open>
  Claim C2. With fifteen stored messages and \<open>m16\<close> submitted, the window that
  \<open>getAIResponse\<close> builds is the system entry, the entries of the stored messages 7 to 15,
  and the new message twice: the submit handler stores the new message before it reads
  \<open>latestHistory\<close>, and \<open>prepareConversationHistory\<close> appends it once more. The claim
  says messages 6 to 15 and the new message once.
\<close>

theorem sixteenth_message_window:
  "completion_window ava (snd (onSubmit full_page (lit ''b1'') (lit ''m16'') 16 st15)) =
     Some [\<lparr>role = lit ''system'', content = createPersonalityPrompt ava\<rparr>,
           \<lparr>role = lit ''assistant'', content = lit ''m7''\<rparr>, \<lparr>role = lit ''user'', content = lit ''m8''\<rparr>,
           \<lparr>role = lit ''assistant'', content = lit ''m9''\<rparr>, \<lparr>role = lit ''user'', content = lit ''m10''\<rparr>,
           \<lparr>role = lit ''assistant'', content = lit ''m11''\<rparr>, \<lparr>role = lit ''user'', content = lit ''m12''\<rparr>,
           \<lparr>role = lit ''assistant'', content = lit ''m13''\<rparr>, \<lparr>role = lit ''user'', content = lit ''m14''\<rparr>,
           \<lparr>role = lit ''assistant'', content = lit ''m15''\<rparr>, \<lparr>role = lit ''user'', content = lit ''m16''\<rparr>,
           \<lparr>role = lit ''user'', content = lit ''m16''\<rparr>]"
proof -
  have pg: "has_chat_messages full_page"
    by (simp add: full_page_def)
  have t: "trim (lit ''m16'') \<noteq> []"
    by (simp add: trim_m16)
  have "snd (onSubmit full_page (lit ''b1'') (lit ''m16'') 16 st15) =
          Pending (lit ''m16'') (fifteen @ [\<lparr>sender = lit ''user'', text = lit ''m16'', timestamp = 16\<rparr>])"
    using onSubmit_pending(1) [OF pg t, of "lit ''b1''" 16 st15]
    by (simp add: trim_m16 getChatHistory_st15)
  then show ?thesis
    by (simp add: completion_window_def prepareConversationHistory_eq fifteen_def mk_message_def
        history_entry_def)
qed

section \<open>The request of a send\<close>

text \<open>
  Claim C4, as amended. For every send that the submit handler accepts (the text is not
  empty once \<open>trim\<close> has removed the white space at its ends, the page has its message
  list, and the bot id is not the name of a member that the chats object inherits from
  \<open>Object.prototype\<close>, on which saving the message throws), the one request posted is a \<open>POST\<close> to the relay's \<open>/chat\<close> whose body has exactly the two fields
  \<open>userMessage\<close>, the trimmed text, and \<open>systemPrompt\<close>, the compiled persona prompt; from
  that body the relay posts to the provider the model and the two messages \<open>system\<close> (the
  prompt with the formatting instructions appended) and \<open>user\<close>. Neither body holds the
  history entries or a temperature.
\<close>

theorem send_message_request:
  assumes "has_chat_messages pg" and "trim v \<noteq> []"
    and "botId \<notin> set object_prototype_keys"
  shows "posted (fst (send_message pg botId b v now fetch later st)) =
           posted st @ [chat_request (trim v) (createPersonalityPrompt b)]
         \<and> chat_upstream_body (body (chat_request (trim v) (createPersonalityPrompt b))) =
             Inr (JObj [(lit ''model'', JStr AI_MODEL),
                        (lit ''messages'',
                         JArr [JObj [(lit ''role'', JStr (lit ''system'')),
                                     (lit ''content'',
                                      JStr (createPersonalityPrompt b @ formatting_instructions))],
                               JObj [(lit ''role'', JStr (lit ''user'')), (lit ''content'', JStr (trim v))]])])"
proof -
  obtain st1 r where s: "onSubmit pg botId v now st = (st1, r)"
    by (cases "onSubmit pg botId v now st")
  have r: "r = Pending (trim v)
      (getChatHistory botId st @ [\<lparr>sender = lit ''user'', text = trim v, timestamp = now\<rparr>])"
    using onSubmit_pending(1) [OF assms(1,2), of botId now st] s by simp
  have p: "posted st1 = posted st"
    using onSubmit_pending(3) [OF assms(1,2), of botId now st] s by simp
  have "posted (fst (send_message pg botId b v now fetch later st)) =
          posted st @ [chat_request (trim v) (createPersonalityPrompt b)]"
    by (simp add: send_message_def s r onTimer_posted p)
  then show ?thesis
    by (simp add: chat_upstream_body_chat_request)
qed

theorem send_message_request_witness:
  "has_chat_messages full_page \<and> trim (lit ''m16'') \<noteq> []
   \<and> lit ''b1'' \<notin> set object_prototype_keys
   \<and> posted (fst (send_message full_page (lit ''b1'') ava (lit ''m16'') 16 no_network 17 st15)) =
       [chat_request (lit ''m16'') (createPersonalityPrompt ava)]"
  using send_message_request [of full_page "lit ''m16''" "lit ''b1''" ava 16 no_network 17 st15]
  by (simp add: trim_m16 full_page_def st15_def object_prototype_keys_def)

text \<open>
  Claim C4 as stated fails: the body posted for the sixteenth message has no \<open>messages\<close>
  and no \<open>temperature\<close> field.
\<close>

theorem request_carries_window_counterexample:
  "posted (fst (send_message full_page (lit ''b1'') ava (lit ''m16'') 16 no_network 17 st15)) =
     [chat_request (lit ''m16'') (createPersonalityPrompt ava)]
   \<and> \<not> carries_window (body (chat_request (lit ''m16'') (createPersonalityPrompt ava)))
         (prepareConversationHistory ava
            (fifteen @ [\<lparr>sender = lit ''user'', text = lit ''m16'', timestamp = 16\<rparr>]) (lit ''m16''))
         (getToneTemperature (chatTone ava))
   \<and> get_member (body (chat_request (lit ''m16'') (createPersonalityPrompt ava))) (lit ''messages'') = Inr JUndefined
   \<and> get_member (body (chat_request (lit ''m16'') (createPersonalityPrompt ava))) (lit ''temperature'') = Inr JUndefined"
proof -
  have pg: "has_chat_messages full_page"
    by (simp add: full_page_def)
  have t: "trim (lit ''m16'') \<noteq> []"
    by (simp add: trim_m16)
  obtain st1 r where s: "onSubmit full_page (lit ''b1'') (lit ''m16'') 16 st15 = (st1, r)"
    by (cases "onSubmit full_page (lit ''b1'') (lit ''m16'') 16 st15")
  have r: "r = Pending (lit ''m16'')
      (fifteen @ [\<lparr>sender = lit ''user'', text = lit ''m16'', timestamp = 16\<rparr>])"
    using onSubmit_pending(1) [OF pg t, of "lit ''b1''" 16 st15] s
    by (simp add: trim_m16 getChatHistory_st15)
  have p: "posted st1 = []"
    using onSubmit_pending(3) [OF pg t, of "lit ''b1''" 16 st15] s by (simp add: st15_def)
  have "posted (fst (send_message full_page (lit ''b1'') ava (lit ''m16'') 16 no_network 17 st15)) =
     [chat_request (lit ''m16'') (createPersonalityPrompt ava)]"
    by (simp add: send_message_def s r onTimer_posted p)
  then show ?thesis
    by (simp add: carries_window_def chat_request_def object_prototype_keys_def)
qed

section \<open>A send that fails\<close>




lemma getAIResponse_transport_failure:
  assumes "\<forall>request. fetch request = FetchFailed \<or> (\<exists>data. fetch request = Response False data)"
  shows "\<exists>e. snd (getAIResponse b t h fetch st) = Inl e"
proof -
  let ?request = "chat_request t (createPersonalityPrompt b)"
  from assms have "fetch ?request = FetchFailed \<or> (\<exists>data. fetch ?request = Response False data)"
    by blast
  then show ?thesis
    by (auto simp: getAIResponse_def prepareConversationHistory_eq Let_def chat_request_def
        and_then_def split: option.splits sum.splits)
qed










section \<open>Deleting a message\<close>

lemma splice_start_nat: "i \<le> n \<Longrightarrow> splice_start (int i) n = i"
  by (simp add: splice_start_def)

lemma handleDeleteMessage_history:
  assumes "currentChat st = Some (botId, cur)" and "botId \<noteq> []"
  shows "getChatHistory botId (handleDeleteMessage index s True True st) =
           (if s = lit ''user'' then splice_to_end index (getChatHistory botId st)
            else splice_count index 1 (getChatHistory botId st))"
    and "currentChat (handleDeleteMessage index s True True st) =
           Some (botId, if s = lit ''user'' then splice_to_end index (getChatHistory botId st)
                        else splice_count index 1 (getChatHistory botId st))"
  using assms
  by (simp_all add: handleDeleteMessage_def Let_def getChatHistory_def getAllChats_def
      saveAllChats_def)

text \<open>
  Claim C5. On the chat page of a bot, deleting (with the confirmation given) the message
  at a position \<open>i\<close> of the stored transcript whose sender is \<open>user\<close> leaves and stores the
  first \<open>i\<close> messages, unchanged: the transcript has length \<open>i\<close>, and so has the history
  of \<open>window.currentChat\<close>.
\<close>

theorem delete_user_message_truncates:
  assumes "currentChat st = Some (botId, cur)" and "botId \<noteq> []"
    and "i < length (getChatHistory botId st)"
    and "sender (getChatHistory botId st ! i) = lit ''user''"
  shows "getChatHistory botId
           (handleDeleteMessage (int i) (sender (getChatHistory botId st ! i)) True True st) =
           take i (getChatHistory botId st)
         \<and> length (getChatHistory botId
             (handleDeleteMessage (int i) (sender (getChatHistory botId st ! i)) True True st)) = i
         \<and> (\<forall>j<i. getChatHistory botId
               (handleDeleteMessage (int i) (sender (getChatHistory botId st ! i)) True True st) ! j =
               getChatHistory botId st ! j)
         \<and> currentChat (handleDeleteMessage (int i) (sender (getChatHistory botId st ! i)) True True st) =
             Some (botId, take i (getChatHistory botId st))"
proof -
  have k: "splice_start (int i) (length (getChatHistory botId st)) = i"
    using assms(3) by (simp add: splice_start_nat)
  show ?thesis
    using assms(3)
    by (simp add: handleDeleteMessage_history [OF assms(1,2)] assms(4) splice_to_end_def k)
qed

theorem delete_user_message_truncates_witness:
  "currentChat st15 = Some (lit ''b1'', []) \<and> 1 < length (getChatHistory (lit ''b1'') st15)
   \<and> sender (getChatHistory (lit ''b1'') st15 ! 1) = lit ''user''
   \<and> getChatHistory (lit ''b1'') (handleDeleteMessage 1 (lit ''user'') True True st15) = [mk_message (lit ''bot'') (lit ''m1'') 1]"
  using delete_user_message_truncates [of st15 "lit ''b1''" "[]" 1]
  by (simp add: getChatHistory_st15) (simp add: st15_def fifteen_def mk_message_def)

text \<open>
  Claim C6. On the chat page of a bot, deleting (with the confirmation given) the message
  at a position \<open>i\<close> of the stored transcript whose sender is \<open>bot\<close> removes that message
  only: the messages before \<open>i\<close> stay, each later message moves down by one position, and
  the length decreases by one.
\<close>

theorem delete_bot_message_removes_one:
  assumes "currentChat st = Some (botId, cur)" and "botId \<noteq> []"
    and "i < length (getChatHistory botId st)"
    and "sender (getChatHistory botId st ! i) = lit ''bot''"
  shows "getChatHistory botId
           (handleDeleteMessage (int i) (sender (getChatHistory botId st ! i)) True True st) =
           take i (getChatHistory botId st) @ drop (Suc i) (getChatHistory botId st)
         \<and> length (getChatHistory botId
             (handleDeleteMessage (int i) (sender (getChatHistory botId st ! i)) True True st)) =
             length (getChatHistory botId st) - 1
         \<and> (\<forall>j<i. getChatHistory botId
               (handleDeleteMessage (int i) (sender (getChatHistory botId st ! i)) True True st) ! j =
               getChatHistory botId st ! j)
         \<and> (\<forall>j. i \<le> j \<and> j < length (getChatHistory botId st) - 1 \<longrightarrow>
               getChatHistory botId
                 (handleDeleteMessage (int i) (sender (getChatHistory botId st ! i)) True True st) ! j =
               getChatHistory botId st ! Suc j)
         \<and> currentChat (handleDeleteMessage (int i) (sender (getChatHistory botId st ! i)) True True st) =
             Some (botId, take i (getChatHistory botId st) @ drop (Suc i) (getChatHistory botId st))"
proof -
  let ?h = "getChatHistory botId st"
  have k: "splice_start (int i) (length ?h) = i"
    using assms(3) by (simp add: splice_start_nat)
  have eq: "getChatHistory botId (handleDeleteMessage (int i) (sender (?h ! i)) True True st) =
      take i ?h @ drop (Suc i) ?h"
    by (simp add: handleDeleteMessage_history [OF assms(1,2)] assms(4) splice_count_def k Let_def)
  have cur: "currentChat (handleDeleteMessage (int i) (sender (?h ! i)) True True st) =
      Some (botId, take i ?h @ drop (Suc i) ?h)"
    by (simp add: handleDeleteMessage_history [OF assms(1,2)] assms(4) splice_count_def k Let_def)
  have len: "length (take i ?h @ drop (Suc i) ?h) = length ?h - 1"
    using assms(3) by simp
  have before: "\<forall>j<i. (take i ?h @ drop (Suc i) ?h) ! j = ?h ! j"
    using assms(3) by (simp add: nth_append)
  have after: "\<forall>j. i \<le> j \<and> j < length ?h - 1 \<longrightarrow> (take i ?h @ drop (Suc i) ?h) ! j = ?h ! Suc j"
    using assms(3) by (auto simp: nth_append min_def)
  show ?thesis
    unfolding eq cur using len before after by simp
qed

theorem delete_bot_message_removes_one_witness:
  "currentChat st15 = Some (lit ''b1'', []) \<and> 12 < length (getChatHistory (lit ''b1'') st15)
   \<and> sender (getChatHistory (lit ''b1'') st15 ! 12) = lit ''bot''
   \<and> getChatHistory (lit ''b1'') (handleDeleteMessage 12 (lit ''bot'') True True st15) =
       take 12 fifteen @ [mk_message (lit ''user'') (lit ''m14'') 14, mk_message (lit ''bot'') (lit ''m15'') 15]"
  using delete_bot_message_removes_one [of st15 "lit ''b1''" "[]" 12]
  by (simp add: getChatHistory_st15) (simp add: st15_def fifteen_def mk_message_def)

section \<open>The welcome message\<close>

text \<open>
  For every tone that is not the name of a member inherited from \<open>Object.prototype\<close>,
  the first visit of a bot with no stored transcript stores exactly one message, from
  \<open>bot\<close>, whose text is taken from the table with the entry of \<open>Normal\<close> as the fallback; no
  request is sent.
\<close>

lemma getWelcomeMessage_own_or_normal:
  "chatTone b \<notin> set object_prototype_keys \<Longrightarrow> getWelcomeMessage b = Inr (JStr (welcome_text (chatTone b)))"
  by (simp add: getWelcomeMessage_def toneMessages_def and_then_def welcome_text_def)

lemma getWelcomeMessage_inherited:
  "chatTone b \<in> set object_prototype_keys \<Longrightarrow> getWelcomeMessage b = Inr (JNative (chatTone b))"
  by (auto simp: getWelcomeMessage_def toneMessages_def and_then_def object_prototype_keys_def)

lemma initChatPage_welcome:
  assumes "has_chat_container pg" and "url_id pg = Some botId" and "botId \<noteq> []"
    and "getBotById botId st = Some b" and "has_chat_messages pg"
    and "getChatHistory botId st = []" and "chatTone b \<notin> set object_prototype_keys"
  shows "getChatHistory botId (fst (initChatPage pg now st)) =
           [\<lparr>sender = lit ''bot'',
             text = lit ''Hello! I'm '' @ name b @ lit ''. '' @ welcome_text (chatTone b),
             timestamp = now\<rparr>]"
    and "posted (fst (initChatPage pg now st)) = posted st"
    and "snd (initChatPage pg now st) = (if has_chat_input pg then Some (botId, b) else None)"
  using assms
  by (simp_all add: initChatPage_def Let_def getWelcomeMessage_own_or_normal
      getChatHistory_saveChatMessage)

lemma initChatPage_existing_history:
  assumes "url_id pg = Some botId" and "getChatHistory botId st \<noteq> []"
  shows "getChatHistory botId (fst (initChatPage pg now st)) = getChatHistory botId st"
  using assms
  by (auto simp: initChatPage_def Let_def getChatHistory_saveChatMessage
      split: option.splits sum.splits dest: getChatHistory_cong)

text \<open>
  Claim C8. For the tone \<open>constructor\<close>, which is none of the four tones, the table lookup
  finds the member that the table inherits, which is truthy: \<open>getWelcomeMessage\<close> returns
  it instead of the entry of \<open>Normal\<close>, and the welcome message stored on the first visit
  holds the text of that built-in function.
\<close>

theorem welcome_message_inherited_tone:
  "chatTone (ava\<lparr>chatTone := lit ''constructor''\<rparr>) \<notin> {lit ''Normal'', lit ''Romantic'', lit ''Flirty'', lit ''Spicy''}
   \<and> getWelcomeMessage (ava\<lparr>chatTone := lit ''constructor''\<rparr>) = Inr (JNative (lit ''constructor''))
   \<and> getWelcomeMessage (ava\<lparr>chatTone := lit ''Normal''\<rparr>) = Inr (JStr (lit ''How can I help you today?''))
   \<and> getChatHistory (lit ''b1'') (fst (initChatPage full_page 5 st_new)) =
       [\<lparr>sender = lit ''bot'', text = lit ''Hello! I'm Ava. function Object() { [native code] }'',
         timestamp = 5\<rparr>]"
proof -
  have a: "getWelcomeMessage (ava\<lparr>chatTone := lit ''constructor''\<rparr>) = Inr (JNative (lit ''constructor''))"
    using getWelcomeMessage_inherited [of "ava\<lparr>chatTone := lit ''constructor''\<rparr>"]
    by (simp add: object_prototype_keys_def)
  have b: "getWelcomeMessage (ava\<lparr>chatTone := lit ''Normal''\<rparr>) = Inr (JStr (lit ''How can I help you today?''))"
    using getWelcomeMessage_own_or_normal [of "ava\<lparr>chatTone := lit ''Normal''\<rparr>"]
    by (simp add: object_prototype_keys_def welcome_text_def)
  have c: "getChatHistory (lit ''b1'') (fst (initChatPage full_page 5 st_new)) =
       [\<lparr>sender = lit ''bot'', text = lit ''Hello! I'm Ava. function Object() { [native code] }'',
         timestamp = 5\<rparr>]"
    by (simp add: initChatPage_def full_page_def st_new_def getBotById_def Let_def a
        getChatHistory_saveChatMessage)
       (simp add: getChatHistory_def getAllChats_def ava_def lit_append [symmetric])
  show ?thesis
    using a b c by (simp add: ava_def)
qed

section \<open>The formatter: text and pieces\<close>

lemma marker_not_word: "c \<in> markers \<Longrightarrow> \<not> is_word c"
  by (auto simp: markers_def is_word_def lit_def)

lemma markup_piece_no_marker:
  assumes "markup_piece p"
  shows "set p \<inter> markers = {}"
  using assms unfolding markup_piece_def entity_def formatter_tag_def Let_def
proof (elim disjE conjE)
  assume a: "p = lit ''<code class=\"language-'' @ takeWhile is_word (drop 22 p) @ lit ''\">''"
  have "set (takeWhile is_word (drop 22 p)) \<inter> markers = {}"
    using marker_not_word by (auto dest: set_takeWhileD)
  then have "set (lit ''<code class=\"language-'' @ takeWhile is_word (drop 22 p) @ lit ''\">'') \<inter> markers = {}"
    by (auto simp: markers_def lit_def)
  with a show ?thesis by metis
qed (auto simp: markers_def lit_def)

lemma markup_piece_start: "markup_piece p \<Longrightarrow> p \<noteq> [] \<and> hd p \<in> {of_char CHR ''<'', of_char CHR ''&''}"
  unfolding markup_piece_def entity_def formatter_tag_def Let_def
proof (elim disjE conjE)
  assume a: "p = lit ''<code class=\"language-'' @ takeWhile is_word (drop 22 p) @ lit ''\">''"
  have "hd (lit ''<code class=\"language-'' @ takeWhile is_word (drop 22 p) @ lit ''\">'') = of_char CHR ''<''"
    by (simp add: lit_def)
  with a have "hd p = of_char CHR ''<''" by metis
  moreover from a have "p \<noteq> []" by (auto simp: lit_def)
  ultimately show ?thesis by simp
qed (auto simp: lit_def)

lemma language_tag:
  assumes "w \<noteq> []" and "\<forall>c\<in>set w. is_word c"
  shows "markup_piece (lit ''<code class=\"language-'' @ w @ lit ''\">'')"
proof -
  have "takeWhile is_word (w @ lit ''\">'') = w"
    using assms(2) by (simp add: takeWhile_append2) (simp add: is_word_def lit_def)
  then show ?thesis
    using assms(1) by (simp add: markup_piece_def formatter_tag_def Let_def)
qed

lemma pieces_text_append:
  "pieces_text P xs \<Longrightarrow> pieces_text P ys \<Longrightarrow> pieces_text P (xs @ ys)"
  by (induction rule: pieces_text.induct) (auto intro: pieces_text.intros)

lemma pieces_text_mono:
  assumes "\<And>p. P p \<Longrightarrow> Q p"
  shows "pieces_text P s \<Longrightarrow> pieces_text Q s"
  by (induction rule: pieces_text.induct) (auto intro: pieces_text.intros assms)

lemma pieces_text_piece: "P p \<Longrightarrow> pieces_text P p"
  using pieces_text.Piece [of P p "[]"] by (simp add: pieces_text.Nil)

text \<open>Splitting at a character that occurs in no piece.\<close>

lemma pieces_text_split:
  assumes "pieces_text P s" and "s = xs @ c # ys" and "\<And>p. P p \<Longrightarrow> c \<notin> set p"
  shows "pieces_text P xs \<and> pieces_text P ys"
  using assms(1,2)
proof (induction arbitrary: xs rule: pieces_text.induct)
  case Nil
  then show ?case by simp
next
  case (Plain d s)
  show ?case
  proof (cases xs)
    case Nil
    with Plain show ?thesis by (simp add: pieces_text.Nil)
  next
    case (Cons x xs')
    with Plain.prems have "s = xs' @ c # ys" and "x = d" by simp_all
    with Plain.IH [of xs'] Plain.hyps(1) Cons show ?thesis
      by (auto intro: pieces_text.Plain)
  qed
next
  case (Piece p s)
  from Piece.prems obtain us where
    "(p = xs @ us \<and> us @ s = c # ys) \<or> (p @ us = xs \<and> s = us @ c # ys)"
    by (auto simp: append_eq_append_conv2)
  then show ?case
  proof
    assume a: "p = xs @ us \<and> us @ s = c # ys"
    have "us = []"
    proof (rule ccontr)
      assume "us \<noteq> []"
      with a have "c \<in> set p" by (cases us) auto
      with assms(3) [OF Piece.hyps(1)] show False by simp
    qed
    with a have "p = xs" and "s = [] @ c # ys" by simp_all
    with Piece.IH [of "[]"] Piece.hyps(1) show ?thesis
      by (auto intro: pieces_text_piece)
  next
    assume a: "p @ us = xs \<and> s = us @ c # ys"
    with Piece.IH [of us] have "pieces_text P us" and "pieces_text P ys" by simp_all
    with a Piece.hyps(1) show ?thesis
      by (auto intro: pieces_text.Piece)
  qed
qed

text \<open>Dropping a first character that starts no piece.\<close>

lemma pieces_text_tail:
  assumes "pieces_text P (c # s)" and "\<And>p. P p \<Longrightarrow> p \<noteq> [] \<and> hd p \<noteq> c"
  shows "pieces_text P s"
proof -
  have "s = t" if "c # s = p @ t" and "P p" for p t
    using that assms(2) [of p] by (cases p) auto
  with assms(1) show ?thesis
    by (auto elim: pieces_text.cases)
qed

lemma pieces_text_dropWhile:
  assumes "pieces_text P s" and "\<And>p c. P p \<Longrightarrow> Q c \<Longrightarrow> p \<noteq> [] \<and> hd p \<noteq> c"
  shows "pieces_text P (dropWhile Q s)"
  using assms(1)
proof (induction s rule: list.induct)
  case Nil
  then show ?case by (simp add: pieces_text.Nil)
next
  case (Cons c s)
  show ?case
  proof (cases "Q c")
    case True
    with Cons.prems assms(2) have "pieces_text P s"
      by (auto intro: pieces_text_tail)
    with Cons.IH True show ?thesis by simp
  next
    case False
    with Cons.prems show ?thesis by simp
  qed
qed

text \<open>Dropping last characters that occur in no piece.\<close>

lemma pieces_text_butlast_while:
  assumes "pieces_text P s" and "\<And>p c. P p \<Longrightarrow> Q c \<Longrightarrow> c \<notin> set p"
  shows "pieces_text P (rev (dropWhile Q (rev s)))"
  using assms(1)
proof (induction s rule: rev_induct)
  case Nil
  then show ?case by (simp add: pieces_text.Nil)
next
  case (snoc c s)
  show ?case
  proof (cases "Q c")
    case True
    from snoc.prems have "pieces_text P s"
      using pieces_text_split [of P "s @ [c]" s c "[]"] assms(2) True by auto
    with snoc.IH True show ?thesis by simp
  next
    case False
    with snoc.prems show ?thesis by simp
  qed
qed

section \<open>The formatter: one rule applied everywhere\<close>

lemma replace_all_skip:
  assumes "\<And>prev s out n. m prev s = Some (out, n) \<Longrightarrow> s \<noteq> [] \<and> hd s \<in> T"
    and "set p \<inter> T = {}"
  shows "replace_all m prev (p @ s) = p @ replace_all m (if p = [] then prev else Some (last p)) s"
  using assms(2)
proof (induction p arbitrary: prev rule: list.induct)
  case Nil
  then show ?case by simp
next
  case (Cons c p)
  have "m prev (c # p @ s) = None"
  proof (cases "m prev (c # p @ s)")
    case (Some r)
    then obtain out n where "m prev (c # p @ s) = Some (out, n)" by (cases r) auto
    from assms(1) [OF this] Cons.prems show ?thesis by simp
  qed simp
  with Cons show ?case by simp
qed

lemma replace_all_text:
  assumes trig: "\<And>prev s out n. m prev s = Some (out, n) \<Longrightarrow> s \<noteq> [] \<and> hd s \<in> T"
    and pieces: "\<And>p. P p \<Longrightarrow> p \<noteq> [] \<and> set p \<inter> T = {}"
    and sound: "\<And>prev s out n. m prev s = Some (out, n) \<Longrightarrow> pieces_text P0 s \<Longrightarrow>
                  0 < n \<and> pieces_text P out \<and> pieces_text P0 (drop n s)"
    and sub: "\<And>p. P0 p \<Longrightarrow> P p"
  shows "pieces_text P0 s \<Longrightarrow> pieces_text P (replace_all m prev s)"
proof (induction "length s" arbitrary: s prev rule: less_induct)
  case less
  from less.prems show ?case
  proof (cases rule: pieces_text.cases)
    case Nil
    then show ?thesis by (simp add: pieces_text.Nil)
  next
    case (Plain c t)
    show ?thesis
    proof (cases "m prev s")
      case None
      have "pieces_text P (replace_all m (Some c) t)"
        using less.hyps [of t "Some c"] Plain by simp
      with None Plain show ?thesis
        by (simp add: pieces_text.Plain)
    next
      case (Some r)
      obtain out n where r: "r = (out, n)" by (cases r)
      from sound [OF Some [unfolded r] less.prems]
      have n: "0 < n" and out: "pieces_text P out" and rest: "pieces_text P0 (drop n s)"
        by simp_all
      have "length (drop n s) < length s"
        using n Plain by simp
      from less.hyps [OF this rest]
      have "pieces_text P (replace_all m (Some (last (take n s))) (drop n s))" .
      with out have "pieces_text P (out @ replace_all m (Some (last (take n s))) (drop n s))"
        by (rule pieces_text_append)
      with Some r n Plain show ?thesis by simp
    qed
  next
    case (Piece p t)
    from pieces [OF sub [OF Piece(2)]] have p: "p \<noteq> []" "set p \<inter> T = {}" by simp_all
    have "pieces_text P (replace_all m (Some (last p)) t)"
      using less.hyps [of t "Some (last p)"] Piece p by simp
    with sub [OF Piece(2)]
    have "pieces_text P (p @ replace_all m (Some (last p)) t)"
      by (rule pieces_text.Piece)
    with replace_all_skip [of m T p prev t, OF trig p(2)] p(1) Piece show ?thesis
      by simp
  qed
qed

lemma lazy_star_Some:
  "lazy_star ok d s = Some inner \<Longrightarrow> inner @ d @ drop (length inner + length d) s = s"
proof (induction ok d s arbitrary: inner rule: lazy_star.induct)
  case (1 ok d)
  then show ?case by simp
next
  case (2 ok d c cs)
  show ?case
  proof (cases "take (length d) (c # cs) = d")
    case True
    with 2 have "inner = []" by simp
    moreover have "take (length d) (c # cs) @ drop (length d) (c # cs) = c # cs"
      by (rule append_take_drop_id)
    ultimately show ?thesis using True by simp
  next
    case False
    with 2 obtain inner' where i: "lazy_star ok d cs = Some inner'" "inner = c # inner'" "ok c"
      by (auto split: if_splits)
    with 2 False have "inner' @ d @ drop (length inner' + length d) cs = cs" by simp
    with i show ?thesis by simp
  qed
qed

lemma lazy_plus_Some:
  assumes "lazy_plus ok d s = Some inner"
  shows "inner @ d @ drop (length inner + length d) s = s"
proof (cases s)
  case Nil
  with assms show ?thesis by (simp add: lazy_plus_def)
next
  case (Cons c cs)
  with assms obtain inner' where i: "lazy_star ok d cs = Some inner'" "inner = c # inner'"
    by (auto simp: lazy_plus_def split: if_splits)
  from lazy_star_Some [OF i(1)] i(2) Cons show ?thesis by simp
qed

lemma clean_markup_piece: "clean_pieces markup_piece"
  using markup_piece_start markup_piece_no_marker by (simp add: clean_pieces_def)

lemma entity_markup_piece: "entity p \<Longrightarrow> markup_piece p"
  by (simp add: markup_piece_def)

lemma clean_entity: "clean_pieces entity"
  using clean_markup_piece entity_markup_piece by (simp add: clean_pieces_def)

lemma marker_plain: "c \<in> markers \<Longrightarrow> c \<notin> {of_char CHR ''<'', of_char CHR ''>'', of_char CHR ''&''}"
  by (auto simp: markers_def)

lemma text_split:
  assumes "clean_pieces P" and "pieces_text P (xs @ c # ys)" and "c \<in> markers"
  shows "pieces_text P xs \<and> pieces_text P ys"
proof (rule pieces_text_split [OF assms(2) refl])
  fix p assume "P p"
  with assms(1,3) show "c \<notin> set p" by (auto simp: clean_pieces_def)
qed

lemma text_drop_marker:
  assumes "clean_pieces P" and "pieces_text P (c # ys)" and "c \<in> markers"
  shows "pieces_text P ys"
  using text_split [OF assms(1), of "[]" c ys] assms(2,3) by simp

lemma text_marker:
  assumes "pieces_text P ys" and "c \<in> markers"
  shows "pieces_text P (c # ys)"
  using assms by (intro pieces_text.Plain marker_plain)

lemma text_drop_space:
  assumes "clean_pieces P" and "pieces_text P (of_char CHR '' '' # ys)"
  shows "pieces_text P ys"
proof (rule pieces_text_tail [OF assms(2)])
  fix p assume "P p"
  with assms(1) show "p \<noteq> [] \<and> hd p \<noteq> of_char CHR '' ''" by (auto simp: clean_pieces_def)
qed

lemma markers_mem:
  "of_char CHR ''`'' \<in> markers" "of_char CHR ''*'' \<in> markers" "of_char CHR ''#'' \<in> markers"
  "0x000A \<in> markers" "0x000D \<in> markers" "0x2028 \<in> markers" "0x2029 \<in> markers"
  by (simp_all add: markers_def)

lemma not_dot_marker: "\<not> dot c \<Longrightarrow> c \<in> markers"
  by (auto simp: dot_def is_line_terminator_def markers_def)

section \<open>The formatter: inline code\<close>

lemma inline_code_match_trigger:
  "inline_code_match prev s = Some (out, n) \<Longrightarrow> s \<noteq> [] \<and> hd s \<in> markers"
  by (cases s) (auto simp: inline_code_match_def markers_def lit_def split: if_splits)

lemma inline_code_match_sound:
  assumes "inline_code_match prev s = Some (out, n)" and "markup_text s"
  shows "0 < n \<and> markup_text out \<and> markup_text (drop n s)"
proof -
  let ?nb = "\<lambda>c. c \<noteq> of_char CHR ''`''"
  from assms(1) obtain r where s: "s = of_char CHR ''`'' # r"
    by (cases s) (auto simp: inline_code_match_def lit_def split: if_splits)
  define inner where "inner = takeWhile ?nb r"
  define rest where "rest = dropWhile ?nb r"
  from assms(1) s have out: "out = lit ''<code class=\"inline-code\">'' @ inner @ lit ''</code>''"
    and n: "n = length inner + 2" and ne: "rest \<noteq> []"
    by (auto simp: inline_code_match_def Let_def inner_def rest_def split: if_splits)
  from ne hd_dropWhile [of ?nb r] obtain rest' where rest': "rest = of_char CHR ''`'' # rest'"
    by (cases rest) (auto simp: rest_def)
  have r: "inner @ of_char CHR ''`'' # rest' = r"
    using takeWhile_dropWhile_id [of ?nb r, folded inner_def rest_def, unfolded rest'] .
  have "markup_text r"
    using text_drop_marker [OF clean_markup_piece] assms(2) s markers_mem(1) by simp
  with r have "markup_text (inner @ of_char CHR ''`'' # rest')" by simp
  from text_split [OF clean_markup_piece this markers_mem(1)]
  have inner: "markup_text inner" and tail: "markup_text rest'"
    by simp_all
  have "s = of_char CHR ''`'' # inner @ of_char CHR ''`'' # rest'"
    using r s by simp
  then have d: "drop n s = rest'"
    by (simp add: n numeral_2_eq_2)
  have t1: "markup_piece (lit ''<code class=\"inline-code\">'')" and t2: "markup_piece (lit ''</code>'')"
    by (simp_all add: markup_piece_def formatter_tag_def)
  have "markup_text (lit ''<code class=\"inline-code\">'' @ inner @ lit ''</code>'')"
    by (intro pieces_text_append pieces_text_piece t1 t2 inner)
  with n d tail out show ?thesis by simp
qed

lemma text_drop_markers:
  assumes "clean_pieces P" and "set ms \<subseteq> markers"
  shows "pieces_text P (ms @ ys) \<Longrightarrow> pieces_text P ys"
  using assms(2)
proof (induction ms rule: list.induct)
  case Nil
  then show ?case by simp
next
  case (Cons c ms)
  then show ?case
    using text_drop_marker [OF assms(1), of c "ms @ ys"] by simp
qed

lemma wrap_text:
  assumes "P a" and "P b" and "pieces_text P x"
  shows "pieces_text P (a @ x @ b)"
proof -
  have "pieces_text P a" and "pieces_text P b"
    using assms(1,2) pieces_text_piece [of P a] pieces_text_piece [of P b] by simp_all
  with assms(3) show ?thesis
    by (simp add: pieces_text_append)
qed

lemma take_prefix: "take (length d) s = d \<Longrightarrow> d @ drop (length d) s = s"
  by (metis append_take_drop_id)

section \<open>The formatter: headers\<close>

lemma header_match_trigger:
  "header_match (of_char CHR ''#'' # ms) tag prev s = Some (out, n) \<Longrightarrow> s \<noteq> [] \<and> hd s \<in> markers"
  by (cases s) (auto simp: header_match_def markers_def split: if_splits)

lemma header_match_sound:
  assumes m: "header_match (hashes @ lit '' '') tag prev s = Some (out, n)"
    and hashes: "set hashes \<subseteq> markers"
    and tags: "markup_piece (lit ''<'' @ tag @ lit ''>'')" "markup_piece (lit ''</'' @ tag @ lit ''>'')"
    and safe: "markup_text s"
  shows "0 < n \<and> markup_text out \<and> markup_text (drop n s)"
proof -
  let ?marks = "hashes @ lit '' ''"
  define r where "r = drop (length ?marks) s"
  define line where "line = takeWhile dot r"
  define rest where "rest = dropWhile dot r"
  from m have pre: "take (length ?marks) s = ?marks"
    and out: "out = (lit ''<'' @ tag @ lit ''>'') @ line @ (lit ''</'' @ tag @ lit ''>'')"
    and n: "n = length ?marks + length line" and ne: "line \<noteq> []"
    by (auto simp: header_match_def Let_def line_def r_def split: if_splits)
  have "?marks @ r = s"
    unfolding r_def by (rule take_prefix [OF pre])
  moreover have "line @ rest = r"
    by (simp add: line_def rest_def)
  ultimately have s: "?marks @ line @ rest = s"
    by simp
  have d: "drop n s = rest"
    unfolding s [symmetric] n by simp
  have "markup_text (hashes @ of_char CHR '' '' # line @ rest)"
    using safe s by (simp add: lit_def)
  then have "markup_text (of_char CHR '' '' # line @ rest)"
    by (rule text_drop_markers [OF clean_markup_piece hashes])
  then have lr: "markup_text (line @ rest)"
    by (rule text_drop_space [OF clean_markup_piece])
  have "markup_text line \<and> markup_text rest"
  proof (cases rest)
    case Nil
    with lr show ?thesis by (simp add: pieces_text.Nil)
  next
    case (Cons t rest')
    then have "dropWhile dot r \<noteq> []" and "hd (dropWhile dot r) = t"
      by (simp_all add: rest_def)
    with hd_dropWhile [of dot r] have "\<not> dot t"
      by simp
    then have t: "t \<in> markers"
      by (rule not_dot_marker)
    from text_split [OF clean_markup_piece lr [unfolded Cons] t] Cons t show ?thesis
      by (auto intro: text_marker)
  qed
  then have l: "markup_text line" and t: "markup_text rest"
    by simp_all
  have "markup_text ((lit ''<'' @ tag @ lit ''>'') @ line @ (lit ''</'' @ tag @ lit ''>''))"
    by (rule wrap_text [OF tags l])
  with t d n ne out show ?thesis by simp
qed

section \<open>The formatter: bold and italic\<close>

lemma emphasis_match_trigger:
  "emphasis_match (of_char CHR ''*'' # ms) tag prev s = Some (out, n) \<Longrightarrow> s \<noteq> [] \<and> hd s \<in> markers"
  by (cases s) (auto simp: emphasis_match_def markers_def split: if_splits)

lemma emphasis_match_sound:
  assumes m: "emphasis_match stars tag prev s = Some (out, n)"
    and stars: "set stars \<subseteq> markers" "stars \<noteq> []"
    and tags: "markup_piece (lit ''<'' @ tag @ lit ''>'')" "markup_piece (lit ''</'' @ tag @ lit ''>'')"
    and safe: "markup_text s"
  shows "0 < n \<and> markup_text out \<and> markup_text (drop n s)"
proof -
  define r where "r = drop (length stars) s"
  from m obtain inner where pre: "take (length stars) s = stars"
    and inner: "lazy_plus dot stars r = Some inner"
    and out: "out = (lit ''<'' @ tag @ lit ''>'') @ inner @ (lit ''</'' @ tag @ lit ''>'')"
    and n: "n = 2 * length stars + length inner"
    by (auto simp: emphasis_match_def r_def split: if_splits option.splits)
  define rest where "rest = drop (length inner + length stars) r"
  have "stars @ r = s"
    unfolding r_def by (rule take_prefix [OF pre])
  moreover have "inner @ stars @ rest = r"
    unfolding rest_def by (rule lazy_plus_Some [OF inner])
  ultimately have s: "stars @ inner @ stars @ rest = s"
    by simp
  have d: "drop n s = rest"
    unfolding s [symmetric] n by simp
  obtain c stars' where c: "stars = c # stars'"
    using stars(2) by (cases stars) auto
  with stars(1) have cm: "c \<in> markers" and sm: "set stars' \<subseteq> markers" by simp_all
  have "markup_text (stars @ inner @ stars @ rest)"
    using safe s by simp
  then have "markup_text (inner @ c # stars' @ rest)"
    using text_drop_markers [OF clean_markup_piece stars(1)] c by simp
  from text_split [OF clean_markup_piece this cm]
  have i: "markup_text inner" and "markup_text (stars' @ rest)"
    by simp_all
  then have t: "markup_text rest"
    using text_drop_markers [OF clean_markup_piece sm] by simp
  have "markup_text ((lit ''<'' @ tag @ lit ''>'') @ inner @ (lit ''</'' @ tag @ lit ''>''))"
    by (rule wrap_text [OF tags i])
  with t d n stars(2) out show ?thesis by simp
qed

section \<open>The formatter: code blocks\<close>

lemma code_block_match_trigger:
  "code_block_match prev s = Some (out, n) \<Longrightarrow> s \<noteq> [] \<and> hd s \<in> markers"
  by (cases s) (auto simp: code_block_match_def markers_def lit_def split: if_splits)

lemma entity_no_space: "entity p \<Longrightarrow> is_space c \<Longrightarrow> c \<notin> set p"
  by (auto simp: entity_def is_space_def lit_def)

lemma trim_text:
  assumes "escaped_text s"
  shows "escaped_text (trim s)"
proof -
  have "escaped_text (dropWhile is_space s)"
  proof (rule pieces_text_dropWhile [OF assms])
    fix p c assume "entity p" and "is_space c"
    then show "p \<noteq> [] \<and> hd p \<noteq> c"
      by (auto simp: entity_def is_space_def lit_def)
  qed
  then have "escaped_text (rev (dropWhile is_space (rev (dropWhile is_space s))))"
    by (rule pieces_text_butlast_while) (rule entity_no_space)
  then show ?thesis by (simp add: trim_def)
qed

lemma code_block_match_sound:
  assumes m: "code_block_match prev s = Some (out, n)" and safe: "escaped_text s"
  shows "0 < n \<and> markup_text out \<and> escaped_text (drop n s)"
proof -
  define r where "r = drop 3 s"
  define language where "language = takeWhile is_word r"
  define lang where "lang = (if language = [] then lit ''text'' else language)"
  from m obtain body code where pre: "take 3 s = lit ''```''"
    and nl: "dropWhile is_word r = 0x000A # body"
    and code: "lazy_star any_char (lit ''```'') body = Some code"
    and out: "out = lit ''<pre class=\"code-block\">'' @ (lit ''<code class=\"language-'' @ lang @ lit ''\">'')
                    @ trim code @ lit ''</code>'' @ lit ''</pre>''"
    and n: "n = 3 + length language + 1 + length code + 3"
    by (auto simp: code_block_match_def Let_def r_def language_def lang_def lit_def
        split: if_splits list.splits option.splits)
  define rest where "rest = drop (length code + length (lit ''```'')) body"
  have "take 3 s @ drop 3 s = s"
    by (rule append_take_drop_id)
  then have "lit ''```'' @ r = s"
    by (simp add: pre r_def)
  moreover have "language @ 0x000A # body = r"
    using takeWhile_dropWhile_id [of is_word r] by (simp add: language_def nl)
  moreover have "code @ lit ''```'' @ rest = body"
    unfolding rest_def by (rule lazy_star_Some [OF code])
  ultimately have s: "lit ''```'' @ language @ 0x000A # code @ lit ''```'' @ rest = s"
    by simp
  define matched where "matched = lit ''```'' @ language @ 0x000A # code @ lit ''```''"
  have "matched @ rest = s" and "n = length matched"
    using s by (simp_all add: matched_def n)
  then have "drop n s = drop (length matched) (matched @ rest)"
    by simp
  then have d: "drop n s = rest"
    by simp
  have fence: "set (lit ''```'') \<subseteq> markers"
    by (simp add: markers_def lit_def)
  have "escaped_text (lit ''```'' @ language @ 0x000A # code @ lit ''```'' @ rest)"
    using safe s by simp
  then have "escaped_text (language @ 0x000A # code @ lit ''```'' @ rest)"
    by (rule text_drop_markers [OF clean_entity fence])
  from text_split [OF clean_entity this markers_mem(4)]
  have "escaped_text (code @ of_char CHR ''`'' # lit ''``'' @ rest)"
    by (simp add: lit_def)
  from text_split [OF clean_entity this markers_mem(1)]
  have c: "escaped_text code" and "escaped_text (lit ''``'' @ rest)"
    by simp_all
  then have t: "escaped_text rest"
    using text_drop_markers [OF clean_entity, of "lit ''``''" rest] by (simp add: markers_def lit_def)
  have w: "\<forall>c\<in>set lang. is_word c" and "lang \<noteq> []"
    by (auto simp: lang_def language_def is_word_def lit_def dest: set_takeWhileD)
  then have l: "markup_piece (lit ''<code class=\"language-'' @ lang @ lit ''\">'')"
    using language_tag by simp
  have tc: "markup_text (trim code)"
    using trim_text [OF c] entity_markup_piece by (rule pieces_text_mono [rotated])
  have close_code: "markup_piece (lit ''</code>'')" and open_pre: "markup_piece (lit ''<pre class=\"code-block\">'')"
    and close_pre: "markup_piece (lit ''</pre>'')"
    by (simp_all add: markup_piece_def formatter_tag_def)
  have "markup_text
      ((lit ''<code class=\"language-'' @ lang @ lit ''\">'') @ trim code @ lit ''</code>'')"
    using wrap_text [of markup_piece "lit ''<code class=\"language-'' @ lang @ lit ''\">''" "lit ''</code>''"
        "trim code"] l close_code tc by blast
  then have "markup_text
      (lit ''<pre class=\"code-block\">''
       @ ((lit ''<code class=\"language-'' @ lang @ lit ''\">'') @ trim code @ lit ''</code>'') @ lit ''</pre>'')"
    using wrap_text [of markup_piece "lit ''<pre class=\"code-block\">''" "lit ''</pre>''"] open_pre close_pre
    by blast
  with out have "markup_text out"
    by simp
  with d t n show ?thesis by simp
qed

section \<open>The formatter: escaping and line breaks\<close>

lemma replace_char_Nil [simp]: "replace_char c r [] = []"
  by (simp add: replace_char_def)

lemma replace_char_Cons [simp]:
  "replace_char c r (x # xs) = (if x = c then r else [x]) @ replace_char c r xs"
  by (simp add: replace_char_def)

lemma replace_char_append [simp]:
  "replace_char c r (xs @ ys) = replace_char c r xs @ replace_char c r ys"
  by (simp add: replace_char_def)

lemma replace_char_absent: "c \<notin> set s \<Longrightarrow> replace_char c r s = s"
  by (induction s) auto

lemma escaping_gives_escaped_text:
  "escaped_text
     (replace_char (of_char CHR ''>'') (lit ''&gt;'') (replace_char (of_char CHR ''<'') (lit ''&lt;'') (replace_char (of_char CHR ''&'') (lit ''&amp;'') m)))"
proof (induction m)
  case Nil
  show ?case by (simp add: pieces_text.Nil)
next
  case (Cons x m)
  let ?rest = "replace_char (of_char CHR ''>'') (lit ''&gt;'')
      (replace_char (of_char CHR ''<'') (lit ''&lt;'') (replace_char (of_char CHR ''&'') (lit ''&amp;'') m))"
  consider "x = of_char CHR ''&''" | "x = of_char CHR ''<''" | "x = of_char CHR ''>''"
    | "x \<notin> {of_char CHR ''<'', of_char CHR ''>'', of_char CHR ''&''}" by auto
  then show ?case
  proof cases
    case 1
    have "escaped_text (lit ''&amp;'' @ ?rest)"
      by (rule pieces_text.Piece [OF _ Cons]) (simp add: entity_def)
    with 1 show ?thesis by (simp add: lit_def)
  next
    case 2
    have "escaped_text (lit ''&lt;'' @ ?rest)"
      by (rule pieces_text.Piece [OF _ Cons]) (simp add: entity_def)
    with 2 show ?thesis by (simp add: lit_def)
  next
    case 3
    have "escaped_text (lit ''&gt;'' @ ?rest)"
      by (rule pieces_text.Piece [OF _ Cons]) (simp add: entity_def)
    with 3 show ?thesis by (simp add: lit_def)
  next
    case 4
    with Cons have "escaped_text (x # ?rest)"
      by (intro pieces_text.Plain)
    with 4 show ?thesis by simp
  qed
qed

lemma line_breaks_text:
  "markup_text s \<Longrightarrow> markup_text (replace_char 0x000A (lit ''<br>'') s)"
proof (induction rule: pieces_text.induct)
  case Nil
  show ?case by (simp add: pieces_text.Nil)
next
  case (Plain c s)
  show ?case
  proof (cases "c = 0x000A")
    case True
    have "markup_text (lit ''<br>'' @ replace_char 0x000A (lit ''<br>'') s)"
      by (rule pieces_text.Piece [OF _ Plain.IH]) (simp add: markup_piece_def formatter_tag_def)
    with True show ?thesis by simp
  next
    case False
    with Plain show ?thesis by (simp add: pieces_text.Plain)
  qed
next
  case (Piece p s)
  from markup_piece_no_marker [OF Piece.hyps(1)] have "0x000A \<notin> set p"
    using markers_mem(4) by auto
  then have "replace_char 0x000A (lit ''<br>'') p = p"
    by (rule replace_char_absent)
  with Piece show ?case
    by (simp add: pieces_text.Piece)
qed

section \<open>The formatter: the whole pipeline\<close>

lemma markup_piece_pieces: "markup_piece p \<Longrightarrow> p \<noteq> [] \<and> set p \<inter> markers = {}"
  using markup_piece_start markup_piece_no_marker by simp

lemma heading_tags:
  "markup_piece (lit ''<'' @ lit ''h3'' @ lit ''>'')" "markup_piece (lit ''</'' @ lit ''h3'' @ lit ''>'')"
  "markup_piece (lit ''<'' @ lit ''h4'' @ lit ''>'')" "markup_piece (lit ''</'' @ lit ''h4'' @ lit ''>'')"
  "markup_piece (lit ''<'' @ lit ''h5'' @ lit ''>'')" "markup_piece (lit ''</'' @ lit ''h5'' @ lit ''>'')"
  "markup_piece (lit ''<'' @ lit ''strong'' @ lit ''>'')" "markup_piece (lit ''</'' @ lit ''strong'' @ lit ''>'')"
  "markup_piece (lit ''<'' @ lit ''em'' @ lit ''>'')" "markup_piece (lit ''</'' @ lit ''em'' @ lit ''>'')"
  by (simp_all add: markup_piece_def formatter_tag_def lit_append [symmetric])

lemma code_blocks_text:
  assumes "escaped_text s"
  shows "markup_text (replace_all code_block_match prev s)"
proof (rule replace_all_text [where T = markers and ?P0.0 = entity, OF _ _ _ _ assms])
  show "\<And>prev s out n. code_block_match prev s = Some (out, n) \<Longrightarrow> s \<noteq> [] \<and> hd s \<in> markers"
    by (rule code_block_match_trigger)
  show "\<And>prev s out n. code_block_match prev s = Some (out, n) \<Longrightarrow> escaped_text s \<Longrightarrow>
      0 < n \<and> markup_text out \<and> escaped_text (drop n s)"
    by (rule code_block_match_sound)
qed (fact markup_piece_pieces entity_markup_piece)+

lemma inline_code_text:
  assumes "markup_text s"
  shows "markup_text (replace_all inline_code_match prev s)"
proof (rule replace_all_text [where T = markers and ?P0.0 = markup_piece, OF _ _ _ _ assms])
  show "\<And>prev s out n. inline_code_match prev s = Some (out, n) \<Longrightarrow> s \<noteq> [] \<and> hd s \<in> markers"
    by (rule inline_code_match_trigger)
  show "\<And>prev s out n. inline_code_match prev s = Some (out, n) \<Longrightarrow> markup_text s \<Longrightarrow>
      0 < n \<and> markup_text out \<and> markup_text (drop n s)"
    by (rule inline_code_match_sound)
qed (fact markup_piece_pieces)+

lemma headers_text:
  assumes "hashes \<noteq> []" and "set hashes \<subseteq> {of_char CHR ''#''}"
    and "markup_piece (lit ''<'' @ tag @ lit ''>'')" and "markup_piece (lit ''</'' @ tag @ lit ''>'')"
    and "markup_text s"
  shows "markup_text (replace_all (header_match (hashes @ lit '' '') tag) prev s)"
proof (rule replace_all_text [where T = markers and ?P0.0 = markup_piece, OF _ _ _ _ assms(5)])
  fix prev' s' out n
  assume m: "header_match (hashes @ lit '' '') tag prev' s' = Some (out, n)"
  from assms(1,2) obtain ms where "hashes = of_char CHR ''#'' # ms"
    by (cases hashes) auto
  with m show "s' \<noteq> [] \<and> hd s' \<in> markers"
    using header_match_trigger [of "ms @ lit '' ''" tag prev' s' out n] by simp
  assume "markup_text s'"
  with m assms(2,3,4) show "0 < n \<and> markup_text out \<and> markup_text (drop n s')"
    using header_match_sound [of hashes tag prev' s' out n] markers_mem(3) by auto
qed (fact markup_piece_pieces)+

lemma emphasis_text:
  assumes "stars \<noteq> []" and "set stars \<subseteq> {of_char CHR ''*''}"
    and "markup_piece (lit ''<'' @ tag @ lit ''>'')" and "markup_piece (lit ''</'' @ tag @ lit ''>'')"
    and "markup_text s"
  shows "markup_text (replace_all (emphasis_match stars tag) prev s)"
proof (rule replace_all_text [where T = markers and ?P0.0 = markup_piece, OF _ _ _ _ assms(5)])
  fix prev' s' out n
  assume m: "emphasis_match stars tag prev' s' = Some (out, n)"
  from assms(1,2) obtain ms where "stars = of_char CHR ''*'' # ms"
    by (cases stars) auto
  with m show "s' \<noteq> [] \<and> hd s' \<in> markers"
    using emphasis_match_trigger [of ms tag prev' s' out n] by simp
  assume "markup_text s'"
  with m assms(1,2,3,4) show "0 < n \<and> markup_text out \<and> markup_text (drop n s')"
    using emphasis_match_sound [of stars tag prev' s' out n] markers_mem(2) by auto
qed (fact markup_piece_pieces)+

lemma formatMessage_JStr:
  "formatMessage (JStr m) =
     Inr (replace_char 0x000A (lit ''<br>'')
       (replace_all (emphasis_match (lit ''*'') (lit ''em'')) None
          (replace_all (emphasis_match (lit ''**'') (lit ''strong'')) None
             (replace_all (header_match (lit ''# '') (lit ''h3'')) None
                (replace_all (header_match (lit ''## '') (lit ''h4'')) None
                   (replace_all (header_match (lit ''### '') (lit ''h5'')) None
                      (replace_all inline_code_match None
                         (replace_all code_block_match None
                            (replace_char (of_char CHR ''>'') (lit ''&gt;'')
                               (replace_char (of_char CHR ''<'') (lit ''&lt;'')
                                  (replace_char (of_char CHR ''&'') (lit ''&amp;'') m)))))))))))"
  by (simp add: formatMessage_def format_text_def and_then_def Let_def)

lemma formatMessage_sample:
  "formatMessage (JStr (lit ''**bold** and *italic* and `code`'')) =
     Inr (lit ''<strong>bold</strong> and <em>italic</em> and <code class=\"inline-code\">code</code>'')"
  by code_simp

text \<open>
  Claim C9. The formatter turns the sample into the markup that the specification gives.
  For every string, a sequence of 16-bit code units, it first escapes, and every markup
  rule works on the escaped text, the rules for code first, then the headers, bold before
  italic, the line breaks last. The escaped text has no \<open><\<close>, no \<open>>\<close>, and no \<open>&\<close> but the
  one that starts an entity; in the markup returned every \<open><\<close>, \<open>>\<close> and \<open>&\<close> belongs to
  an entity or to a tag that the formatter writes.
\<close>

theorem formatMessage_markup:
  "formatMessage (JStr (lit ''**bold** and *italic* and `code`'')) =
     Inr (lit ''<strong>bold</strong> and <em>italic</em> and <code class=\"inline-code\">code</code>'')
   \<and> formatMessage (JStr m) =
       Inr (replace_char 0x000A (lit ''<br>'')
         (replace_all (emphasis_match (lit ''*'') (lit ''em'')) None
            (replace_all (emphasis_match (lit ''**'') (lit ''strong'')) None
               (replace_all (header_match (lit ''# '') (lit ''h3'')) None
                  (replace_all (header_match (lit ''## '') (lit ''h4'')) None
                     (replace_all (header_match (lit ''### '') (lit ''h5'')) None
                        (replace_all inline_code_match None
                           (replace_all code_block_match None
                              (replace_char (of_char CHR ''>'') (lit ''&gt;'')
                                 (replace_char (of_char CHR ''<'') (lit ''&lt;'')
                                    (replace_char (of_char CHR ''&'') (lit ''&amp;'') m)))))))))))
   \<and> escaped_text
       (replace_char (of_char CHR ''>'') (lit ''&gt;'')
          (replace_char (of_char CHR ''<'') (lit ''&lt;'')
             (replace_char (of_char CHR ''&'') (lit ''&amp;'') m)))
   \<and> (\<exists>out. formatMessage (JStr m) = Inr out \<and> markup_text out)"
proof -
  let ?escaped = "replace_char (of_char CHR ''>'') (lit ''&gt;'')
      (replace_char (of_char CHR ''<'') (lit ''&lt;'') (replace_char (of_char CHR ''&'') (lit ''&amp;'') m))"
  let ?code = "replace_all code_block_match None ?escaped"
  let ?inline = "replace_all inline_code_match None ?code"
  let ?h5 = "replace_all (header_match (lit ''### '') (lit ''h5'')) None ?inline"
  let ?h4 = "replace_all (header_match (lit ''## '') (lit ''h4'')) None ?h5"
  let ?h3 = "replace_all (header_match (lit ''# '') (lit ''h3'')) None ?h4"
  let ?bold = "replace_all (emphasis_match (lit ''**'') (lit ''strong'')) None ?h3"
  let ?italic = "replace_all (emphasis_match (lit ''*'') (lit ''em'')) None ?bold"
  have e: "escaped_text ?escaped"
    by (rule escaping_gives_escaped_text)
  then have "markup_text ?code"
    by (rule code_blocks_text)
  then have inl: "markup_text ?inline"
    by (rule inline_code_text)
  have h5: "markup_text ?h5"
    using headers_text [OF _ _ heading_tags(5,6) inl, of "lit ''###''" None]
    by (simp add: lit_def)
  have h4: "markup_text ?h4"
    using headers_text [OF _ _ heading_tags(3,4) h5, of "lit ''##''" None]
    by (simp add: lit_def)
  have h3: "markup_text ?h3"
    using headers_text [OF _ _ heading_tags(1,2) h4, of "lit ''#''" None]
    by (simp add: lit_def)
  have bold: "markup_text ?bold"
    using emphasis_text [OF _ _ heading_tags(7,8) h3, of "lit ''**''" None]
    by (simp add: lit_def)
  have "markup_text ?italic"
    using emphasis_text [OF _ _ heading_tags(9,10) bold, of "lit ''*''" None]
    by (simp add: lit_def)
  then have m: "markup_text (replace_char 0x000A (lit ''<br>'') ?italic)"
    by (rule line_breaks_text)
  have p: "formatMessage (JStr m) = Inr (replace_char 0x000A (lit ''<br>'') ?italic)"
    by (rule formatMessage_JStr)
  from p m have "\<exists>out. formatMessage (JStr m) = Inr out \<and> markup_text out"
    by blast
  with formatMessage_sample p e show ?thesis
    by (intro conjI) assumption+
qed

theorem formatMessage_markup_witness:
  "formatMessage (JStr (lit ''a<b & c>'')) = Inr (lit ''a&lt;b &amp; c&gt;'')
   \<and> markup_text (lit ''a&lt;b &amp; c&gt;'')"
proof -
  have "formatMessage (JStr (lit ''a<b & c>'')) = Inr (lit ''a&lt;b &amp; c&gt;'')"
    by code_simp
  with formatMessage_markup [of "lit ''a<b & c>''"] show ?thesis
    by auto
qed

section \<open>The formatter is total\<close>

lemma typeof_string: "(typeof v = lit ''string'') = (\<exists>s. v = JStr s)"
  by (cases v) (simp_all add: lit_def)

lemma format_text_JStr: "\<exists>out. format_text (JStr m) = Inr out"
  by (simp add: format_text_def and_then_def Let_def)

lemma format_text_throws:
  assumes "\<forall>s. v \<noteq> JStr s"
  shows "format_text v = Inl TypeError"
  using assms by (cases v) (simp_all add: format_text_def and_then_def)

text \<open>
  Claim C10. On a value that is no string (\<open>undefined\<close>, \<open>null\<close>, a boolean, a number, an
  array, an object or a built-in function) \<open>formatMessage\<close> returns the empty string, where
  its body without the first line would throw a \<open>TypeError\<close>: on every such value other
  than an object the first call of \<open>replace\<close> fails. On a string no step of the body
  throws, every search of a rule comes to an end, and \<open>formatMessage\<close> returns a string.
\<close>

theorem formatMessage_total:
  "((\<forall>s. v \<noteq> JStr s) \<longrightarrow> formatMessage v = Inr [])
   \<and> ((\<forall>s. v \<noteq> JStr s) \<and> (\<forall>kv. v \<noteq> JObj kv) \<longrightarrow> format_text v = Inl TypeError)
   \<and> (\<exists>out. formatMessage (JStr m) = Inr out)"
proof (intro conjI impI)
  assume "\<forall>s. v \<noteq> JStr s"
  then have "typeof v \<noteq> lit ''string''"
    by (simp add: typeof_string)
  then show "formatMessage v = Inr []"
    by (simp add: formatMessage_def)
next
  assume "(\<forall>s. v \<noteq> JStr s) \<and> (\<forall>kv. v \<noteq> JObj kv)"
  then show "format_text v = Inl TypeError"
    by (simp add: format_text_throws)
next
  have "typeof (JStr m) = lit ''string''"
    by simp
  with format_text_JStr [of m] show "\<exists>out. formatMessage (JStr m) = Inr out"
    by (simp add: formatMessage_def)
qed

theorem formatMessage_total_witness:
  "formatMessage JNull = Inr [] \<and> format_text JNull = Inl TypeError
   \<and> formatMessage (JNum 42) = Inr [] \<and> format_text (JNum 42) = Inl TypeError
   \<and> formatMessage (JObj [(lit ''text'', JStr (lit ''hi''))]) = Inr []
   \<and> formatMessage (JStr (lit ''# a'')) = Inr (lit ''<h3>a</h3>'')"
proof -
  have "formatMessage (JStr (lit ''# a'')) = Inr (lit ''<h3>a</h3>'')"
    by code_simp
  with formatMessage_total [of JNull "lit ''# a''"] formatMessage_total [of "JNum 42"]
    formatMessage_total [of "JObj [(lit ''text'', JStr (lit ''hi''))]"]
  show ?thesis
    by simp
qed

end
